theory Spec2Isabelle
  imports Complex_Main "HOL-Library.Multiset" "HOL-Library.Char_ord" "HOL-Library.List_Lexorder"
begin

section \<open>Values of the fact environment\<close>

text \<open>
  The rule engine of \<^verbatim>\<open>expert/inference_engine.py\<close> works on Python dictionaries from
  fact names to dynamically typed values. The values that can occur are written out as a
  datatype. Floats are idealised as real numbers, timestamps (\<^verbatim>\<open>datetime\<close>) as a number of
  microseconds, and strings as lists of code points below 256. The callables are the ones
  the repository itself puts into a fact environment: the allow-listed builtins, the three
  lambdas of \<^verbatim>\<open>_add_special_functions\<close> and the three test lambdas of
  \<^verbatim>\<open>validate_condition\<close>.
\<close>

datatype callable =
    Builtin string
  | DaysSince
  | HoursSince
  | IsWeekend
  | TestHoursSince
  | TestDaysSince
  | TestIsWeekend

datatype val =
    VNone
  | VBool bool
  | VInt int
  | VFloat real
  | VStr string
  | VList "val list"
  | VDatetime int
  | VFun callable
  | VDict "(string \<times> val) list"

type_synonym facts = "string \<rightharpoonup> val"

datatype exn =
    SyntaxError | ValueError | TypeError | AttributeError | ZeroDivisionError
  | UnicodeEncodeError | OtherException

text \<open>Python truthiness (\<^verbatim>\<open>bool(x)\<close>, \<^verbatim>\<open>if x\<close>).\<close>

fun truthy :: "val \<Rightarrow> bool" where
  "truthy VNone = False"
| "truthy (VBool b) = b"
| "truthy (VInt i) = (i \<noteq> 0)"
| "truthy (VFloat r) = (r \<noteq> 0)"
| "truthy (VStr s) = (s \<noteq> [])"
| "truthy (VList xs) = (xs \<noteq> [])"
| "truthy (VDatetime t) = True"
| "truthy (VFun f) = True"
| "truthy (VDict kvs) = (kvs \<noteq> [])"

section \<open>String operations used by the action parser\<close>

definition is_space :: "char \<Rightarrow> bool" where
  "is_space c = (of_char c \<in> {9, 10, 11, 12, 13, 28, 29, 30, 31, 32, 133, 160 :: nat})"

text \<open>\<^verbatim>\<open>s.strip()\<close>\<close>

definition strip :: "string \<Rightarrow> string" where
  "strip s = rev (dropWhile is_space (rev (dropWhile is_space s)))"

text \<open>\<^verbatim>\<open>s.split(c)[0]\<close> and \<^verbatim>\<open>s.split(c, 1)[0]\<close>: the text before the first \<open>c\<close>.\<close>

definition split_head :: "char \<Rightarrow> string \<Rightarrow> string" where
  "split_head c s = takeWhile (\<lambda>x. x \<noteq> c) s"

text \<open>\<^verbatim>\<open>s.split(c, 1)\<close>: one part when \<open>c\<close> does not occur, two parts otherwise.\<close>

definition split1 :: "char \<Rightarrow> string \<Rightarrow> string list" where
  "split1 c s =
     (if c \<in> set s then [takeWhile (\<lambda>x. x \<noteq> c) s, tl (dropWhile (\<lambda>x. x \<noteq> c) s)]
      else [s])"

text \<open>\<^verbatim>\<open>s.rsplit(c, 1)[0]\<close>: the text before the last \<open>c\<close>, all of \<open>s\<close> without one.\<close>

definition rsplit1_head :: "char \<Rightarrow> string \<Rightarrow> string" where
  "rsplit1_head c s =
     (if c \<in> set s then rev (tl (dropWhile (\<lambda>x. x \<noteq> c) (rev s))) else s)"

definition startswith :: "string \<Rightarrow> char \<Rightarrow> bool" where
  "startswith s c = (case s of [] \<Rightarrow> False | x # _ \<Rightarrow> x = c)"

definition endswith :: "string \<Rightarrow> char \<Rightarrow> bool" where
  "endswith s c = (case rev s of [] \<Rightarrow> False | x # _ \<Rightarrow> x = c)"

text \<open>\<^verbatim>\<open>InferenceEngine._extract_string_arg\<close>; \<^verbatim>\<open>arg_str[1:-1]\<close> is \<open>butlast (tl s)\<close>.\<close>

definition extract_string_arg :: "string \<Rightarrow> string" where
  "extract_string_arg arg_str =
     (let s = strip arg_str in
      if startswith s (CHR 0x22) \<and> endswith s (CHR 0x22) then butlast (tl s)
      else if startswith s (CHR 0x27) \<and> endswith s (CHR 0x27) then butlast (tl s)
      else s)"

section \<open>Rules and actions\<close>

record rule =
  rule_id :: string
  rule_name :: string
  condition :: string
  action :: string
  priority :: "int option"
  severity :: "string option"
  activation_condition :: "string option"

text \<open>
  The clock and the library functions the engine calls are parameters: \<open>now\<close> is the reading
  of \<^verbatim>\<open>datetime.now()\<close> in microseconds, \<open>isoformat\<close> prints a timestamp, \<open>parse\<close> is
  \<^verbatim>\<open>ast.parse(text, mode='eval').body\<close> with \<open>None\<close> for any exception it raises,
  \<open>builtin\<close> applies one of the allow-listed Python builtins to its arguments,
  \<open>float_of_str\<close> is \<^verbatim>\<open>float\<close> on a string (\<open>None\<close> for \<^verbatim>\<open>ValueError\<close>), \<open>json_dumps\<close> is
  \<^verbatim>\<open>json.dumps(v, sort_keys=True)\<close> and \<open>md5_hexdigest\<close> is
  \<^verbatim>\<open>hashlib.md5(s.encode()).hexdigest()\<close>. \<open>print_out\<close> is \<^verbatim>\<open>print\<close> on the standard
  output of the process: \<open>None\<close> when the line is written, and the exception otherwise
  (\<^verbatim>\<open>UnicodeEncodeError\<close> on a text that the encoding of the output cannot write).
  \<open>exn_str\<close> is the text \<^verbatim>\<open>str(e)\<close> of an exception.
\<close>

datatype cmpop = Eq | NotEq | Lt | LtE | Gt | GtE | In | NotIn | Is | IsNot
datatype boolop = And | Or
datatype unaryop = Not | USub | UAdd | Invert

datatype node =
    Constant val
  | Name string
  | ListNode "node list"
  | Compare node "(cmpop \<times> node) list"
  | BoolOp boolop "node list"
  | UnaryOp unaryop node
  | Call node "node list"
  | Attribute node string
  | BinOp node string node
  | OtherNode string

record env =
  now :: int
  isoformat :: "int \<Rightarrow> string"
  parse :: "string \<Rightarrow> node option"
  builtin :: "string \<Rightarrow> val list \<Rightarrow> exn + val"
  float_of_str :: "string \<Rightarrow> real option"
  json_dumps :: "val \<Rightarrow> exn + string"
  md5_hexdigest :: "string \<Rightarrow> string"
  print_out :: "string \<Rightarrow> exn option"
  exn_str :: "exn \<Rightarrow> string"

text \<open>\<^verbatim>\<open>InferenceEngine._add_observacion\<close>: \<^verbatim>\<open>append\<close> exists on lists only.\<close>

definition add_observacion :: "env \<Rightarrow> string \<Rightarrow> rule \<Rightarrow> facts \<Rightarrow> exn + facts" where
  "add_observacion e message r fs =
     (let fs1 = (if fs ''observaciones'' = None then fs(''observaciones'' \<mapsto> VList []) else fs);
          entry = VDict [(''message'', VStr message),
                         (''severity'', VStr (case severity r of None \<Rightarrow> ''info'' | Some s \<Rightarrow> s)),
                         (''rule_id'', VStr (rule_id r)),
                         (''timestamp'', VStr (isoformat e (now e)))]
      in case fs1 ''observaciones'' of
           Some (VList xs) \<Rightarrow> Inr (fs1(''observaciones'' \<mapsto> VList (xs @ [entry])))
         | _ \<Rightarrow> Inl AttributeError)"

definition mark_sanction :: "rule \<Rightarrow> facts \<Rightarrow> facts" where
  "mark_sanction r fs =
     fs(''sancion_aplicada'' \<mapsto> VBool True, ''sancion_motivo'' \<mapsto> VStr (rule_name r))"

definition require_approval :: "rule \<Rightarrow> facts \<Rightarrow> facts" where
  "require_approval r fs =
     fs(''requiere_aprobacion'' \<mapsto> VBool True, ''aprobacion_motivo'' \<mapsto> VStr (rule_name r))"

text \<open>
  \<^verbatim>\<open>InferenceEngine._execute_action\<close>. The result is the returned summary (\<open>None\<close> for
  Python's \<^verbatim>\<open>None\<close>) and the fact environment after the call, or the exception that
  leaves the function. An exception raised inside the \<^verbatim>\<open>try\<close>, the one of the
  \<^verbatim>\<open>print\<close> of the unrecognised name included, reaches the \<^verbatim>\<open>except Exception\<close>;
  \<open>action_except\<close> is that handler, whose own \<^verbatim>\<open>print\<close> is outside any \<^verbatim>\<open>try\<close>.
\<close>

definition func_name_of :: "string \<Rightarrow> string" where
  "func_name_of a = strip (split_head (CHR ''('') a)"

definition args_str_of :: "string \<Rightarrow> string" where
  "args_str_of a = rsplit1_head (CHR '')'') (tl (dropWhile (\<lambda>x. x \<noteq> CHR ''('') a))"

definition unrecognized_message :: "string \<Rightarrow> string" where
  "unrecognized_message func_name = ''Acci'' @ [CHR 0xF3] @ ''n no reconocida: '' @ func_name"

definition action_message :: "env \<Rightarrow> string \<Rightarrow> exn \<Rightarrow> string" where
  "action_message e a x =
     ''Error ejecutando acci'' @ [CHR 0xF3] @ ''n '' @ [CHR 0x27] @ a @ [CHR 0x27] @ '': ''
       @ exn_str e x"

definition action_except :: "env \<Rightarrow> string \<Rightarrow> exn \<Rightarrow> facts \<Rightarrow> exn + string option \<times> facts" where
  "action_except e a x fs =
     (case print_out e (action_message e a x) of
        None \<Rightarrow> Inr (None, fs)
      | Some y \<Rightarrow> Inl y)"

definition execute_action ::
  "env \<Rightarrow> string \<Rightarrow> rule \<Rightarrow> facts \<Rightarrow> exn + string option \<times> facts" where
  "execute_action e a r fs =
     (if CHR ''('' \<in> set a \<and> CHR '')'' \<in> set a then
        (let func_name = func_name_of a; args_str = args_str_of a in
         if func_name = ''add_observacion'' then
           (let message = extract_string_arg args_str in
            case add_observacion e message r fs of
              Inl x \<Rightarrow> action_except e a x fs
            | Inr fs' \<Rightarrow>
                Inr (Some (''Observaci'' @ [CHR 0xF3] @ ''n agregada: '' @ message), fs'))
         else if func_name = ''mark_sanction'' then
           Inr (Some (''Sanci'' @ [CHR 0xF3] @ ''n aplicada''), mark_sanction r fs)
         else if func_name = ''set_fact'' then
           (case split1 (CHR '','') args_str of
              [p0, p1] \<Rightarrow>
                (let fact_name = extract_string_arg (strip p0);
                     fact_value = extract_string_arg (strip p1)
                 in Inr (Some (''Hecho establecido: '' @ fact_name @ '' = '' @ fact_value),
                         fs(fact_name \<mapsto> VStr fact_value)))
            | _ \<Rightarrow> Inr (None, fs))
         else if func_name = ''require_approval'' then
           Inr (Some (''Requiere aprobaci'' @ [CHR 0xF3] @ ''n supervisor''),
                require_approval r fs)
         else
           (case print_out e (unrecognized_message func_name) of
              None \<Rightarrow> Inr (None, fs)
            | Some x \<Rightarrow> action_except e a x fs))
      else Inr (None, fs))"

section \<open>Comparison operators on values\<close>

text \<open>
  The operators of \<^verbatim>\<open>ALLOWED_OPERATORS\<close> that \<^verbatim>\<open>_eval_node\<close> can reach, on the values
  above. \<^verbatim>\<open>==\<close> never raises; the order comparisons raise \<^verbatim>\<open>TypeError\<close> on operands
  that Python does not order; \<^verbatim>\<open>in\<close> raises on a right operand that is no container.
\<close>

fun num_of :: "val \<Rightarrow> real option" where
  "num_of (VBool b) = Some (if b then 1 else 0)"
| "num_of (VInt i) = Some (of_int i)"
| "num_of (VFloat r) = Some r"
| "num_of v = None"

function py_eq :: "val \<Rightarrow> val \<Rightarrow> bool"
  and py_eq_list :: "val list \<Rightarrow> val list \<Rightarrow> bool"
  and py_eq_dict :: "(string \<times> val) list \<Rightarrow> (string \<times> val) list \<Rightarrow> bool"
  and py_eq_lookup :: "string \<Rightarrow> val \<Rightarrow> (string \<times> val) list \<Rightarrow> bool"
where
  "py_eq a b =
     (case (num_of a, num_of b) of
        (Some x, Some y) \<Rightarrow> x = y
      | (Some x, None) \<Rightarrow> False
      | (None, Some y) \<Rightarrow> False
      | (None, None) \<Rightarrow>
          (case (a, b) of
             (VNone, VNone) \<Rightarrow> True
           | (VStr s, VStr t) \<Rightarrow> s = t
           | (VDatetime s, VDatetime t) \<Rightarrow> s = t
           | (VFun f, VFun g) \<Rightarrow> f = g
           | (VList xs, VList ys) \<Rightarrow> py_eq_list xs ys
           | (VDict xs, VDict ys) \<Rightarrow> length xs = length ys \<and> py_eq_dict xs ys
           | _ \<Rightarrow> False))"
| "py_eq_list [] ys = (ys = [])"
| "py_eq_list (x # xs) ys = (case ys of [] \<Rightarrow> False | y # ys' \<Rightarrow> py_eq x y \<and> py_eq_list xs ys')"
| "py_eq_dict [] ys = True"
| "py_eq_dict (kv # xs) ys = (py_eq_lookup (fst kv) (snd kv) ys \<and> py_eq_dict xs ys)"
| "py_eq_lookup k v [] = False"
| "py_eq_lookup k v (kv # ys) = (if k = fst kv then py_eq v (snd kv) else py_eq_lookup k v ys)"
  by pat_completeness auto
termination
  by (relation "measure (\<lambda>x. case x of
        Inl (Inl (a, b)) \<Rightarrow> size a + size b
      | Inl (Inr (xs, ys)) \<Rightarrow> size_list size xs + size_list size ys
      | Inr (Inl (xs, ys)) \<Rightarrow> size_list (size_prod (\<lambda>k. 0) size) xs + size_list (size_prod (\<lambda>k. 0) size) ys
      | Inr (Inr (k, v, ys)) \<Rightarrow> size v + size_list (size_prod (\<lambda>k. 0) size) ys)")
    (auto split: val.splits)

fun str_lt :: "string \<Rightarrow> string \<Rightarrow> bool" where
  "str_lt [] [] = False"
| "str_lt [] (y # ys) = True"
| "str_lt (x # xs) [] = False"
| "str_lt (x # xs) (y # ys) =
     (if x = y then str_lt xs ys else (of_char x :: nat) < of_char y)"

definition num_cmp :: "cmpop \<Rightarrow> real \<Rightarrow> real \<Rightarrow> bool" where
  "num_cmp op x y =
     (case op of Lt \<Rightarrow> x < y | LtE \<Rightarrow> x \<le> y | Gt \<Rightarrow> x > y | GtE \<Rightarrow> x \<ge> y | _ \<Rightarrow> False)"

definition str_cmp :: "cmpop \<Rightarrow> string \<Rightarrow> string \<Rightarrow> bool" where
  "str_cmp op s t =
     (case op of Lt \<Rightarrow> str_lt s t | LtE \<Rightarrow> \<not> str_lt t s | Gt \<Rightarrow> str_lt t s
      | GtE \<Rightarrow> \<not> str_lt s t | _ \<Rightarrow> False)"

text \<open>
  \<^verbatim>\<open><\<close>, \<^verbatim>\<open><=\<close>, \<^verbatim>\<open>>\<close>, \<^verbatim>\<open>>=\<close>. Lists are compared at their first pair of unequal
  elements, and by length when there is none.
\<close>

fun py_ord :: "cmpop \<Rightarrow> val \<Rightarrow> val \<Rightarrow> exn + bool"
  and py_ord_list :: "cmpop \<Rightarrow> val list \<Rightarrow> val list \<Rightarrow> exn + bool"
where
  "py_ord op a b =
     (case (num_of a, num_of b) of
        (Some x, Some y) \<Rightarrow> Inr (num_cmp op x y)
      | (Some x, None) \<Rightarrow> Inl TypeError
      | (None, Some y) \<Rightarrow> Inl TypeError
      | (None, None) \<Rightarrow>
          (case a of
             VStr s \<Rightarrow> (case b of VStr t \<Rightarrow> Inr (str_cmp op s t) | _ \<Rightarrow> Inl TypeError)
           | VDatetime s \<Rightarrow>
               (case b of VDatetime t \<Rightarrow> Inr (num_cmp op (of_int s) (of_int t)) | _ \<Rightarrow> Inl TypeError)
           | VList xs \<Rightarrow> (case b of VList ys \<Rightarrow> py_ord_list op xs ys | _ \<Rightarrow> Inl TypeError)
           | _ \<Rightarrow> Inl TypeError))"
| "py_ord_list op [] ys = Inr (num_cmp op 0 (of_nat (length ys)))"
| "py_ord_list op (x # xs) ys =
     (case ys of
        [] \<Rightarrow> Inr (num_cmp op 1 0)
      | y # ys' \<Rightarrow> if py_eq x y then py_ord_list op xs ys' else py_ord op x y)"

fun is_substring :: "string \<Rightarrow> string \<Rightarrow> bool" where
  "is_substring s [] = (s = [])"
| "is_substring s (y # ys) = (take (length s) (y # ys) = s \<or> is_substring s ys)"

text \<open>\<^verbatim>\<open>x in y\<close>\<close>

definition py_in :: "val \<Rightarrow> val \<Rightarrow> exn + bool" where
  "py_in x y =
     (case y of
        VStr t \<Rightarrow> (case x of VStr s \<Rightarrow> Inr (is_substring s t) | _ \<Rightarrow> Inl TypeError)
      | VList ys \<Rightarrow> Inr (list_ex (py_eq x) ys)
      | VDict kvs \<Rightarrow>
          (case x of
             VList xs \<Rightarrow> Inl TypeError
           | VDict xs \<Rightarrow> Inl TypeError
           | VStr s \<Rightarrow> Inr (s \<in> set (map fst kvs))
           | _ \<Rightarrow> Inr False)
      | _ \<Rightarrow> Inl TypeError)"

definition map_result :: "('a \<Rightarrow> 'b) \<Rightarrow> exn + 'a \<Rightarrow> exn + 'b" where
  "map_result f r = (case r of Inl x \<Rightarrow> Inl x | Inr v \<Rightarrow> Inr (f v))"

text \<open>The entry of \<^verbatim>\<open>ALLOWED_OPERATORS\<close> for a comparison operator, applied.\<close>

definition apply_cmp :: "cmpop \<Rightarrow> val \<Rightarrow> val \<Rightarrow> exn + val" where
  "apply_cmp op a b =
     (case op of
        Eq \<Rightarrow> Inr (VBool (py_eq a b))
      | NotEq \<Rightarrow> Inr (VBool (\<not> py_eq a b))
      | In \<Rightarrow> map_result VBool (py_in a b)
      | NotIn \<Rightarrow> map_result (\<lambda>r. VBool (\<not> r)) (py_in a b)
      | Is \<Rightarrow> Inl ValueError
      | IsNot \<Rightarrow> Inl ValueError
      | _ \<Rightarrow> map_result VBool (py_ord op a b))"

definition allowed_cmpop :: "cmpop \<Rightarrow> bool" where
  "allowed_cmpop op = (op \<noteq> Is \<and> op \<noteq> IsNot)"

definition ALLOWED_FUNCTIONS :: "string list" where
  "ALLOWED_FUNCTIONS = [''len'', ''str'', ''int'', ''float'', ''bool'', ''abs'', ''min'', ''max'']"

section \<open>The callables of the fact environment\<close>

text \<open>
  \<^verbatim>\<open>days_since\<close>, \<^verbatim>\<open>hours_since\<close> and \<^verbatim>\<open>is_weekend\<close> are the lambdas of
  \<^verbatim>\<open>_add_special_functions\<close>; a call with the wrong number of arguments, and the
  subtraction \<^verbatim>\<open>datetime.now() - date\<close> on a truthy argument that is no timestamp, raise
  \<^verbatim>\<open>TypeError\<close>. The test lambdas are those of \<^verbatim>\<open>validate_condition\<close>.
\<close>

definition days_since :: "env \<Rightarrow> val \<Rightarrow> exn + val" where
  "days_since e date =
     (if truthy date then
        (case date of VDatetime t \<Rightarrow> Inr (VInt ((now e - t) div 86400000000)) | _ \<Rightarrow> Inl TypeError)
      else Inr (VInt 999))"

definition hours_since :: "env \<Rightarrow> val \<Rightarrow> exn + val" where
  "hours_since e date =
     (if truthy date then
        (case date of
           VDatetime t \<Rightarrow> Inr (VFloat (of_int (now e - t) / 1000000 / 3600))
         | _ \<Rightarrow> Inl TypeError)
      else Inr (VInt 999))"

definition weekday :: "int \<Rightarrow> int" where
  "weekday t = (t div 86400000000 + 3) mod 7"

definition hour_of :: "int \<Rightarrow> int" where
  "hour_of t = (t div 3600000000) mod 24"

definition apply_callable :: "env \<Rightarrow> callable \<Rightarrow> val list \<Rightarrow> exn + val" where
  "apply_callable e c args =
     (case c of
        Builtin n \<Rightarrow> builtin e n args
      | DaysSince \<Rightarrow> (case args of [d] \<Rightarrow> days_since e d | _ \<Rightarrow> Inl TypeError)
      | HoursSince \<Rightarrow> (case args of [d] \<Rightarrow> hours_since e d | _ \<Rightarrow> Inl TypeError)
      | IsWeekend \<Rightarrow> (case args of [] \<Rightarrow> Inr (VBool (weekday (now e) \<ge> 5)) | _ \<Rightarrow> Inl TypeError)
      | TestHoursSince \<Rightarrow> (case args of [x] \<Rightarrow> Inr (VInt 24) | _ \<Rightarrow> Inl TypeError)
      | TestDaysSince \<Rightarrow> (case args of [x] \<Rightarrow> Inr (VInt 1) | _ \<Rightarrow> Inl TypeError)
      | TestIsWeekend \<Rightarrow> (case args of [] \<Rightarrow> Inr (VBool False) | _ \<Rightarrow> Inl TypeError))"

section \<open>The safe expression evaluator\<close>

text \<open>
  \<^verbatim>\<open>SafeExpressionEvaluator._eval_node\<close>, with every \<^verbatim>\<open>raise\<close> as an \<open>Inl\<close>. The
  branches for \<^verbatim>\<open>ast.Num\<close> and \<^verbatim>\<open>ast.Str\<close> are those of \<^verbatim>\<open>ast.Constant\<close> (Python 3.8
  and later parse every literal as a constant). \<open>eval_list\<close> is the list comprehension over
  sub-nodes, \<open>eval_compare\<close> the loop over \<^verbatim>\<open>zip(node.ops, node.comparators)\<close>, and
  \<open>fold_boolop\<close> the loop over \<^verbatim>\<open>values[1:]\<close>.
\<close>

definition apply_boolop :: "boolop \<Rightarrow> val \<Rightarrow> val \<Rightarrow> val" where
  "apply_boolop op x y =
     (case op of And \<Rightarrow> (if truthy x then y else x) | Or \<Rightarrow> (if truthy x then x else y))"

fun eval_node :: "env \<Rightarrow> facts \<Rightarrow> node \<Rightarrow> exn + val"
  and eval_list :: "env \<Rightarrow> facts \<Rightarrow> node list \<Rightarrow> exn + val list"
  and eval_compare :: "env \<Rightarrow> facts \<Rightarrow> val \<Rightarrow> val \<Rightarrow> (cmpop \<times> node) list \<Rightarrow> exn + val"
where
  "eval_node e fs (Constant v) = Inr v"
| "eval_node e fs (Name n) =
     (if n \<in> set ALLOWED_FUNCTIONS then Inr (VFun (Builtin n))
      else Inr (case fs n of None \<Rightarrow> VNone | Some v \<Rightarrow> v))"
| "eval_node e fs (ListNode elts) = map_result VList (eval_list e fs elts)"
| "eval_node e fs (Compare l rest) =
     (case eval_node e fs l of
        Inl x \<Rightarrow> Inl x
      | Inr left \<Rightarrow> eval_compare e fs left (VBool True) rest)"
| "eval_node e fs (BoolOp op vals) =
     (case eval_list e fs vals of
        Inl x \<Rightarrow> Inl x
      | Inr [] \<Rightarrow> Inl OtherException
      | Inr (v # vs) \<Rightarrow> Inr (foldl (apply_boolop op) v vs))"
| "eval_node e fs (UnaryOp op operand) =
     (if op = Not then map_result (\<lambda>v. VBool (\<not> truthy v)) (eval_node e fs operand)
      else Inl ValueError)"
| "eval_node e fs (Call f args) =
     (case f of
        Name func_name \<Rightarrow>
          (if func_name \<in> set ALLOWED_FUNCTIONS then
             (case eval_list e fs args of
                Inl x \<Rightarrow> Inl x
              | Inr vs \<Rightarrow> builtin e func_name vs)
           else
             (case fs func_name of
                Some (VFun c) \<Rightarrow>
                  (case eval_list e fs args of
                     Inl x \<Rightarrow> Inl x
                   | Inr vs \<Rightarrow> apply_callable e c vs)
              | _ \<Rightarrow> Inl ValueError))
      | _ \<Rightarrow> Inl ValueError)"
| "eval_node e fs (Attribute v a) = Inl ValueError"
| "eval_node e fs (BinOp l op r) = Inl ValueError"
| "eval_node e fs (OtherNode k) = Inl ValueError"
| "eval_list e fs [] = Inr []"
| "eval_list e fs (n # ns) =
     (case eval_node e fs n of
        Inl x \<Rightarrow> Inl x
      | Inr v \<Rightarrow> map_result (\<lambda>vs. v # vs) (eval_list e fs ns))"
| "eval_compare e fs left result [] = Inr result"
| "eval_compare e fs left result (oc # rest) =
     (case eval_node e fs (snd oc) of
        Inl x \<Rightarrow> Inl x
      | Inr right \<Rightarrow>
          (if allowed_cmpop (fst oc) then
             (if truthy result then
                (case apply_cmp (fst oc) left right of
                   Inl x \<Rightarrow> Inl x
                 | Inr r \<Rightarrow> eval_compare e fs right r rest)
              else eval_compare e fs right result rest)
           else Inl ValueError))"

text \<open>
  \<^verbatim>\<open>SafeExpressionEvaluator.evaluate\<close>. \<open>evaluate_body\<close> is the body of its \<^verbatim>\<open>try\<close>:
  parsing and evaluation. The \<^verbatim>\<open>except Exception\<close> handler prints a line and returns
  \<^verbatim>\<open>False\<close>; its \<^verbatim>\<open>print\<close> is outside any \<^verbatim>\<open>try\<close>, so an exception of the
  \<^verbatim>\<open>print\<close> leaves \<open>evaluate\<close>. Python's recursion limit has no counterpart: on a tree
  nested deeper than the limit \<^verbatim>\<open>_eval_node\<close> raises \<^verbatim>\<open>RecursionError\<close>, which the
  handler catches like any other exception.
\<close>

definition evaluate_body :: "env \<Rightarrow> facts \<Rightarrow> string \<Rightarrow> exn + val" where
  "evaluate_body e fs expression =
     (case parse e expression of
        None \<Rightarrow> Inl SyntaxError
      | Some tree \<Rightarrow> eval_node e fs tree)"

definition eval_message :: "env \<Rightarrow> string \<Rightarrow> exn \<Rightarrow> string" where
  "eval_message e expression x =
     ''Error evaluando expresi'' @ [CHR 0xF3] @ ''n '' @ [CHR 0x27] @ expression @ [CHR 0x27]
       @ '': '' @ exn_str e x"

definition evaluate :: "env \<Rightarrow> facts \<Rightarrow> string \<Rightarrow> exn + val" where
  "evaluate e fs expression =
     (case evaluate_body e fs expression of
        Inr v \<Rightarrow> Inr v
      | Inl x \<Rightarrow>
          (case print_out e (eval_message e expression x) of
             None \<Rightarrow> Inr (VBool False)
           | Some y \<Rightarrow> Inl y))"

section \<open>The forward-chaining inference engine\<close>

record inference_step =
  step_rule_id :: string
  step_rule_name :: string
  step_condition :: string
  condition_result :: bool
  step_action :: string
  step_timestamp :: int
  facts_used :: facts

record inference_result =
  res_conclusions :: "string list"
  res_actions_taken :: "string list"
  res_steps :: "inference_step list"
  final_facts :: facts

text \<open>The variables of the loop of \<^verbatim>\<open>forward_chaining\<close>.\<close>

record engine_state =
  facts_of :: facts
  inference_steps :: "inference_step list"
  conclusions :: "string list"
  actions_taken :: "string list"
  iteration :: int



text \<open>\<^verbatim>\<open>InferenceEngine._add_special_functions\<close>\<close>

definition add_special_functions :: "env \<Rightarrow> facts \<Rightarrow> facts" where
  "add_special_functions e fs =
     fs(''days_since'' \<mapsto> VFun DaysSince,
        ''hours_since'' \<mapsto> VFun HoursSince,
        ''is_weekend'' \<mapsto> VFun IsWeekend,
        ''current_hour'' \<mapsto> VInt (hour_of (now e)))"

definition executed_key :: "string \<Rightarrow> string" where
  "executed_key rid = ''rule_'' @ rid @ ''_executed''"

text \<open>
  \<^verbatim>\<open>InferenceEngine._should_evaluate_rule\<close>; the caller tests the result for truth.
  \<open>rule_executed\<close> is its test \<^verbatim>\<open>self.facts.get(f"rule_{rule['id']}_executed", False)\<close>.
\<close>

definition rule_executed :: "facts \<Rightarrow> string \<Rightarrow> bool" where
  "rule_executed fs rid =
     truthy (case fs (executed_key rid) of None \<Rightarrow> VBool False | Some v \<Rightarrow> v)"

definition should_evaluate_rule :: "env \<Rightarrow> facts \<Rightarrow> rule \<Rightarrow> exn + val" where
  "should_evaluate_rule e fs r =
     (if rule_executed fs (rule_id r)
      then Inr (VBool False)
      else (case activation_condition r of
              None \<Rightarrow> Inr (VBool True)
            | Some ac \<Rightarrow> if ac \<noteq> [] then evaluate e fs ac else Inr (VBool True)))"

definition is_scalar :: "val \<Rightarrow> bool" where
  "is_scalar v =
     (case v of VStr s \<Rightarrow> True | VInt i \<Rightarrow> True | VFloat r \<Rightarrow> True | VBool b \<Rightarrow> True
      | VNone \<Rightarrow> True | _ \<Rightarrow> False)"

text \<open>
  \<^verbatim>\<open>InferenceEngine._evaluate_rule\<close>. Its \<^verbatim>\<open>except Exception\<close> handler prints a line
  and returns \<^verbatim>\<open>None\<close>; an exception of that \<^verbatim>\<open>print\<close> leaves the function.
\<close>

definition rule_message :: "env \<Rightarrow> string \<Rightarrow> exn \<Rightarrow> string" where
  "rule_message e rid x = ''Error evaluando regla '' @ rid @ '': '' @ exn_str e x"

definition make_step :: "env \<Rightarrow> facts \<Rightarrow> rule \<Rightarrow> val \<Rightarrow> inference_step" where
  "make_step e fs r condition_res =
     \<lparr>step_rule_id = rule_id r,
      step_rule_name = rule_name r,
      step_condition = condition r,
      condition_result = truthy condition_res,
      step_action = action r,
      step_timestamp = now e,
      facts_used = (\<lambda>k. case fs k of None \<Rightarrow> None
                          | Some v \<Rightarrow> if is_scalar v then Some v else None)\<rparr>"

definition evaluate_rule :: "env \<Rightarrow> facts \<Rightarrow> rule \<Rightarrow> exn + inference_step option" where
  "evaluate_rule e fs r =
     (case evaluate e fs (condition r) of
        Inr condition_res \<Rightarrow> Inr (Some (make_step e fs r condition_res))
      | Inl x \<Rightarrow>
          (case print_out e (rule_message e (rule_id r) x) of
             None \<Rightarrow> Inr None
           | Some y \<Rightarrow> Inl y))"

text \<open>
  The \<^verbatim>\<open>for rule in self.rules\<close> scan of one iteration, up to its \<^verbatim>\<open>break\<close>: the first
  rule that is to be evaluated and whose step has a true condition, with that step.
\<close>

fun scan :: "env \<Rightarrow> facts \<Rightarrow> rule list \<Rightarrow> exn + (rule \<times> inference_step) option" where
  "scan e fs [] = Inr None"
| "scan e fs (r # rs) =
     (case should_evaluate_rule e fs r of
        Inl x \<Rightarrow> Inl x
      | Inr go \<Rightarrow>
          (if truthy go then
             (case evaluate_rule e fs r of
                Inl x \<Rightarrow> Inl x
              | Inr None \<Rightarrow> scan e fs rs
              | Inr (Some step) \<Rightarrow>
                  if condition_result step then Inr (Some (r, step)) else scan e fs rs)
           else scan e fs rs))"

text \<open>
  The body of \<^verbatim>\<open>if step and step.condition_result\<close>, before the \<^verbatim>\<open>break\<close>. An exception
  that leaves \<^verbatim>\<open>_execute_action\<close> leaves the run.
\<close>

definition fire :: "env \<Rightarrow> rule \<Rightarrow> inference_step \<Rightarrow> engine_state \<Rightarrow> exn + engine_state" where
  "fire e r step st =
     (case execute_action e (action r) r (facts_of st) of
        Inl x \<Rightarrow> Inl x
      | Inr res \<Rightarrow>
          (let recorded = (case fst res of None \<Rightarrow> False | Some a \<Rightarrow> a \<noteq> [])
           in Inr (st\<lparr>facts_of := (snd res)(executed_key (rule_id r) \<mapsto> VBool True),
                      inference_steps := inference_steps st @ [step],
                      conclusions := (if recorded then conclusions st @ [step_rule_name step]
                                      else conclusions st),
                      actions_taken := (if recorded then actions_taken st @ [the (fst res)]
                                        else actions_taken st)\<rparr>)))"

text \<open>
  The \<^verbatim>\<open>while iteration < max_iterations\<close> loop. An iteration in which no rule fires
  leaves the loop.
\<close>

function loop :: "env \<Rightarrow> rule list \<Rightarrow> int \<Rightarrow> engine_state \<Rightarrow> exn + engine_state" where
  "loop e rules max_iterations st =
     (if iteration st < max_iterations then
        (let st1 = st\<lparr>iteration := iteration st + 1\<rparr> in
         case scan e (facts_of st1) rules of
           Inl x \<Rightarrow> Inl x
         | Inr None \<Rightarrow> Inr st1
         | Inr (Some (r, step)) \<Rightarrow>
             (case fire e r step st1 of
                Inl x \<Rightarrow> Inl x
              | Inr st2 \<Rightarrow> loop e rules max_iterations st2))
      else Inr st)"
  by pat_completeness auto
termination
  by (relation "measure (\<lambda>(e, rules, m, st). nat (m - iteration st))")
    (auto simp: fire_def Let_def split: sum.splits)

declare loop.simps [simp del]

text \<open>
  \<^verbatim>\<open>InferenceEngine.forward_chaining\<close> on the rules the engine holds. The elapsed time of
  the result is left out.
\<close>

definition initial_state :: "env \<Rightarrow> facts \<Rightarrow> engine_state" where
  "initial_state e initial_facts =
     \<lparr>facts_of = add_special_functions e (initial_facts(''now'' \<mapsto> VDatetime (now e))),
      inference_steps = [],
      conclusions = [],
      actions_taken = [],
      iteration = 0\<rparr>"

definition forward_chaining ::
  "env \<Rightarrow> rule list \<Rightarrow> facts \<Rightarrow> int \<Rightarrow> exn + inference_result" where
  "forward_chaining e rules initial_facts max_iterations =
     (case loop e rules max_iterations (initial_state e initial_facts) of
        Inl x \<Rightarrow> Inl x
      | Inr st \<Rightarrow>
          Inr \<lparr>res_conclusions = conclusions st,
               res_actions_taken = actions_taken st,
               res_steps = inference_steps st,
               final_facts = facts_of st\<rparr>)"

section \<open>Validation of a condition\<close>

text \<open>
  \<^verbatim>\<open>RulesManager.validate_condition\<close> of \<^verbatim>\<open>expert/rules_manager.py\<close>. Its
  \<^verbatim>\<open>except Exception\<close> branch is reached by the one exception that leaves \<open>evaluate\<close>,
  that of its \<^verbatim>\<open>print\<close>; the message is cut to \<^verbatim>\<open>str(e)[:100]\<close>. The test
  \<^verbatim>\<open>isinstance(result, bool)\<close> has no counterpart, since a boolean is \<^verbatim>\<open>False\<close> or
  \<^verbatim>\<open>True\<close>.
\<close>

definition test_facts :: "env \<Rightarrow> facts" where
  "test_facts e =
     [''motivo'' \<mapsto> VStr ''ART'',
      ''duracion'' \<mapsto> VInt 5,
      ''ausencias_ultimo_mes'' \<mapsto> VInt 2,
      ''certificate_uploaded'' \<mapsto> VBool False,
      ''certificate_deadline'' \<mapsto> VDatetime (now e),
      ''validation_status'' \<mapsto> VStr ''validated'',
      ''sector'' \<mapsto> VStr ''linea1'',
      ''current_hour'' \<mapsto> VInt 14,
      ''hours_since'' \<mapsto> VFun TestHoursSince,
      ''days_since'' \<mapsto> VFun TestDaysSince,
      ''is_weekend'' \<mapsto> VFun TestIsWeekend]"

definition validate_condition :: "env \<Rightarrow> string \<Rightarrow> bool \<times> string" where
  "validate_condition e cond =
     (if cond = [] \<or> strip cond = [] then
        (False, ''Condici'' @ [CHR 0xF3] @ ''n no puede estar vac'' @ [CHR 0xED] @ ''a'')
      else
        (case evaluate e (test_facts e) cond of
           Inl x \<Rightarrow> (False, ''Error en condici'' @ [CHR 0xF3] @ ''n: '' @ take 100 (exn_str e x))
         | Inr result \<Rightarrow>
             if result = VBool False then
               (True, ''Condici'' @ [CHR 0xF3] @ ''n v'' @ [CHR 0xE1] @ ''lida (eval'' @ [CHR 0xFA] @ ''a a False)'')
             else if result = VBool True then
               (True, ''Condici'' @ [CHR 0xF3] @ ''n v'' @ [CHR 0xE1] @ ''lida (eval'' @ [CHR 0xFA] @ ''a a True)'')
             else
               (False, ''La condici'' @ [CHR 0xF3] @ ''n debe evaluar a True/False'')))"

section \<open>Case-based reasoning\<close>

text \<open>
  \<^verbatim>\<open>expert/case_based_learning.py\<close>. Dictionaries are association lists in insertion
  order, read with \<open>map_of\<close>. The case memory is the list \<^verbatim>\<open>self.cases\<close>; the table
  \<^verbatim>\<open>cases\<close> of the database, whose column \<^verbatim>\<open>case_id\<close> is unique, is a list of rows.
\<close>

type_synonym features = "(string \<times> real) list"

record case_rec =
  case_id :: string
  case_facts :: "(string \<times> val) list"
  rules_applied :: "string list"
  case_actions_taken :: "string list"
  outcome :: string
  feedback :: "string option"
  similarity_features :: features
  case_timestamp :: int
  expert_validation :: bool

record similar_case =
  sc_case :: case_rec
  similarity_score :: real
  matching_features :: "string list"

record cbr_state =
  cases :: "case_rec list"
  db_rows :: "case_rec list"

definition feature_weights :: "(string \<times> real) list" where
  "feature_weights =
     [(''motivo'', 0.25), (''duracion'', 0.20), (''ausencias_ultimo_mes'', 0.15),
      (''validation_status'', 0.10), (''certificate_uploaded'', 0.15), (''sector'', 0.10),
      (''deadline_exceeded'', 0.05)]"

definition motivo_map :: "(string \<times> real) list" where
  "motivo_map =
     [(''ART'', 1), (''Licencia Enfermedad Personal'', 2),
      (''Licencia Enfermedad Familiar'', 3), (''Licencia por Fallecimiento Familiar'', 4),
      (''Licencia por Matrimonio'', 5), (''Licencia por Paternidad'', 6),
      (''Licencia por Nacimiento'', 7), (''Permiso Gremial'', 8)]"

definition sector_map :: "(string \<times> real) list" where
  "sector_map = [(''linea1'', 1), (''linea2'', 2), (''Mantenimiento'', 3), (''RH'', 4)]"

text \<open>\<^verbatim>\<open>d.get(key, 0.0)\<close> on a dictionary with string keys: a list or a dictionary is unhashable.\<close>

definition lookup_code :: "(string \<times> real) list \<Rightarrow> val \<Rightarrow> exn + real" where
  "lookup_code m v =
     (case v of
        VStr s \<Rightarrow> Inr (case map_of m s of None \<Rightarrow> 0 | Some x \<Rightarrow> x)
      | VList xs \<Rightarrow> Inl TypeError
      | VDict kvs \<Rightarrow> Inl TypeError
      | _ \<Rightarrow> Inr 0)"

text \<open>\<^verbatim>\<open>float(v)\<close>\<close>

definition py_float :: "env \<Rightarrow> val \<Rightarrow> exn + real" where
  "py_float e v =
     (case v of
        VBool b \<Rightarrow> Inr (if b then 1 else 0)
      | VInt i \<Rightarrow> Inr (of_int i)
      | VFloat r \<Rightarrow> Inr r
      | VStr s \<Rightarrow> (case float_of_str e s of None \<Rightarrow> Inl ValueError | Some r \<Rightarrow> Inr r)
      | _ \<Rightarrow> Inl TypeError)"

definition get_fact :: "(string \<times> val) list \<Rightarrow> string \<Rightarrow> val \<Rightarrow> val" where
  "get_fact fs k d = (case map_of fs k of None \<Rightarrow> d | Some v \<Rightarrow> v)"

text \<open>\<^verbatim>\<open>CaseBasedLearning.extract_features\<close>\<close>

definition extract_features :: "env \<Rightarrow> (string \<times> val) list \<Rightarrow> exn + features" where
  "extract_features e fs =
     (case lookup_code motivo_map (get_fact fs ''motivo'' (VStr [])) of
        Inl x \<Rightarrow> Inl x
      | Inr motivo \<Rightarrow>
     (case py_float e (get_fact fs ''duracion'' (VInt 0)) of
        Inl x \<Rightarrow> Inl x
      | Inr duracion \<Rightarrow>
     (case py_float e (get_fact fs ''ausencias_ultimo_mes'' (VInt 0)) of
        Inl x \<Rightarrow> Inl x
      | Inr ausencias \<Rightarrow>
     (let cert = (if truthy (get_fact fs ''certificate_uploaded'' (VBool False)) then 1 else 0);
          status = (if py_eq (get_fact fs ''validation_status'' VNone) (VStr ''validated'')
                    then 1 else 0.5);
          deadline = (case get_fact fs ''certificate_deadline'' VNone of
                        VDatetime t \<Rightarrow> max 0 (of_int (now e - t) / 1000000 / 3600 / 24)
                      | _ \<Rightarrow> 0)
      in case lookup_code sector_map (get_fact fs ''sector'' (VStr [])) of
           Inl x \<Rightarrow> Inl x
         | Inr sector \<Rightarrow>
             Inr [(''motivo'', motivo), (''duracion'', duracion),
                  (''ausencias_ultimo_mes'', ausencias), (''certificate_uploaded'', cert),
                  (''validation_status'', status), (''deadline_exceeded'', deadline),
                  (''sector'', sector)]))))"

text \<open>\<^verbatim>\<open>CaseBasedLearning.calculate_similarity\<close>: the loop body, then the function.\<close>

definition feature_sim :: "string \<Rightarrow> real \<Rightarrow> real \<Rightarrow> real" where
  "feature_sim feature val1 val2 =
     (if feature = ''motivo'' then (if val1 = val2 then 1 else 0)
      else if feature \<in> set [''certificate_uploaded'', ''validation_status'']
           then (if val1 = val2 then 1 else 0)
      else 1 - \<bar>val1 - val2\<bar> / max (max val1 val2) 1)"

definition sim_step :: "features \<Rightarrow> features \<Rightarrow> string \<times> real \<Rightarrow> real \<times> real \<Rightarrow> real \<times> real" where
  "sim_step f1 f2 fw acc =
     (case (map_of f1 (fst fw), map_of f2 (fst fw)) of
        (Some val1, Some val2) \<Rightarrow>
          (fst acc + feature_sim (fst fw) val1 val2 * snd fw, snd acc + snd fw)
      | _ \<Rightarrow> acc)"

definition calculate_similarity :: "features \<Rightarrow> features \<Rightarrow> real" where
  "calculate_similarity f1 f2 =
     (if f1 = [] \<or> f2 = [] then 0
      else (let acc = fold (sim_step f1 f2) feature_weights (0, 0)
            in if snd acc > 0 then fst acc / snd acc else 0))"

definition matching :: "features \<Rightarrow> features \<Rightarrow> string list" where
  "matching cur stored =
     filter (\<lambda>feature.
        case (map_of cur feature, map_of stored feature) of
          (Some a, Some b) \<Rightarrow> (if feature = ''motivo'' then a = b else \<bar>a - b\<bar> < 0.1)
        | _ \<Rightarrow> False) (map fst feature_weights)"

text \<open>
  \<^verbatim>\<open>xs.sort(key=f, reverse=True)\<close>: a stable sort of the reversed list, reversed, so that
  elements with equal keys keep their order. \<^verbatim>\<open>xs[:k]\<close> counts from the end for a
  negative \<open>k\<close>.
\<close>

definition sort_reverse :: "('a \<Rightarrow> real) \<Rightarrow> 'a list \<Rightarrow> 'a list" where
  "sort_reverse f xs = rev (sort_key f (rev xs))"

definition py_prefix :: "int \<Rightarrow> 'a list \<Rightarrow> 'a list" where
  "py_prefix k xs = (if k \<ge> 0 then take (nat k) xs else take (length xs - nat (- k)) xs)"

text \<open>\<^verbatim>\<open>CaseBasedLearning.find_similar_cases\<close>\<close>

definition candidate :: "features \<Rightarrow> case_rec \<Rightarrow> similar_case" where
  "candidate cur c =
     \<lparr>sc_case = c,
      similarity_score = calculate_similarity cur (similarity_features c),
      matching_features = matching cur (similarity_features c)\<rparr>"

definition find_similar_cases ::
  "env \<Rightarrow> case_rec list \<Rightarrow> (string \<times> val) list \<Rightarrow> int \<Rightarrow> real \<Rightarrow> exn + similar_case list" where
  "find_similar_cases e cs current_facts top_k min_similarity =
     (if cs = [] then Inr []
      else case extract_features e current_facts of
             Inl x \<Rightarrow> Inl x
           | Inr cur \<Rightarrow>
               Inr (py_prefix top_k
                     (sort_reverse similarity_score
                       (filter (\<lambda>sc. similarity_score sc \<ge> min_similarity)
                          (map (candidate cur) cs)))))"

text \<open>
  \<^verbatim>\<open>CaseBasedLearning.store_case\<close>. \<open>db_ok\<close> says whether the database block runs
  through; its exceptions are caught and the identifier is returned all the same.
  \<^verbatim>\<open>INSERT OR REPLACE\<close> deletes the row that holds the same \<^verbatim>\<open>case_id\<close>. The two
  lines that the database block prints are left out.
\<close>

definition serializable :: "env \<Rightarrow> (string \<times> val) list \<Rightarrow> (string \<times> val) list" where
  "serializable e fs =
     map (\<lambda>kv. (fst kv, case snd kv of VDatetime t \<Rightarrow> VStr (isoformat e t) | v \<Rightarrow> v)) fs"

definition case_content :: "(string \<times> val) list \<Rightarrow> string list \<Rightarrow> string list \<Rightarrow> val" where
  "case_content sf rules acts =
     VDict [(''facts'', VDict sf),
            (''rules'', VList (map VStr (sort rules))),
            (''actions'', VList (map VStr (sort acts)))]"

definition store_case ::
  "env \<Rightarrow> bool \<Rightarrow> cbr_state \<Rightarrow> (string \<times> val) list \<Rightarrow> string list \<Rightarrow> string list \<Rightarrow> string
     \<Rightarrow> exn + string \<times> cbr_state" where
  "store_case e db_ok st fs rules acts outc =
     (let sf = serializable e fs in
      case json_dumps e (case_content sf rules acts) of
        Inl x \<Rightarrow> Inl x
      | Inr content \<Rightarrow>
          (let cid = take 12 (md5_hexdigest e content) in
           case extract_features e fs of
             Inl x \<Rightarrow> Inl x
           | Inr feats \<Rightarrow>
               (let new_case = \<lparr>case_id = cid, case_facts = sf, rules_applied = rules,
                                case_actions_taken = acts, outcome = outc, feedback = None,
                                similarity_features = feats, case_timestamp = now e,
                                expert_validation = False\<rparr>
                in Inr (cid,
                        \<lparr>cases = cases st @ [new_case],
                         db_rows = (if db_ok
                                    then filter (\<lambda>c. case_id c \<noteq> cid) (db_rows st) @ [new_case]
                                    else db_rows st)\<rparr>))))"

text \<open>
  \<^verbatim>\<open>CaseBasedLearning.get_recommendations\<close>. A \<^verbatim>\<open>defaultdict(int)\<close> keeps its keys in
  the order of their first use; \<^verbatim>\<open>max(items, key=...)\<close> returns the first item among those
  with the largest key. The \<^verbatim>\<open>reasoning\<close> texts, which format numbers, are left out.
\<close>

record recommendation =
  rec_type :: string
  suggestion :: string
  rec_confidence :: real

record recommendations_result =
  recommendations :: "recommendation list"
  confidence :: real
  similar_cases_count :: nat
  similar_cases :: "similar_case list"

fun add_count :: "string \<Rightarrow> real \<Rightarrow> (string \<times> real) list \<Rightarrow> (string \<times> real) list" where
  "add_count k w [] = [(k, 0 + w)]"
| "add_count k w (kv # kvs) =
     (if fst kv = k then (k, snd kv + w) # kvs else kv # add_count k w kvs)"

definition outcome_counts :: "similar_case list \<Rightarrow> (string \<times> real) list" where
  "outcome_counts scs =
     fold (\<lambda>sc. add_count (outcome (sc_case sc)) (similarity_score sc)) scs []"

definition action_counts :: "similar_case list \<Rightarrow> (string \<times> real) list" where
  "action_counts scs =
     fold (\<lambda>sc acc. fold (\<lambda>a. add_count a (similarity_score sc))
                      (case_actions_taken (sc_case sc)) acc) scs []"

definition rule_counts :: "similar_case list \<Rightarrow> (string \<times> real) list" where
  "rule_counts scs =
     fold (\<lambda>sc acc. fold (\<lambda>a. add_count a (similarity_score sc))
                      (rules_applied (sc_case sc)) acc) scs []"

definition total_similarity :: "similar_case list \<Rightarrow> real" where
  "total_similarity scs = fold (\<lambda>sc t. t + similarity_score sc) scs 0"

fun py_max_snd :: "string \<times> real \<Rightarrow> (string \<times> real) list \<Rightarrow> string \<times> real" where
  "py_max_snd best [] = best"
| "py_max_snd best (x # xs) = py_max_snd (if snd x > snd best then x else best) xs"

text \<open>The part of the function after the retrieval, on a nonempty list of neighbours.\<close>

definition recommend_neighbors :: "similar_case list \<Rightarrow> exn + recommendations_result" where
  "recommend_neighbors scs =
     (let total = total_similarity scs in
      case outcome_counts scs of
        [] \<Rightarrow> Inl ValueError
      | x # xs \<Rightarrow>
          (let most_likely_outcome = py_max_snd x xs in
           if total = 0 then Inl ZeroDivisionError
           else
             (let conf = snd most_likely_outcome / total;
                  top_actions = py_prefix 3 (sort_reverse snd (action_counts scs));
                  top_rules = py_prefix 3 (sort_reverse snd (rule_counts scs))
              in Inr \<lparr>recommendations =
                        [\<lparr>rec_type = ''outcome_prediction'',
                          suggestion = ''Outcome m'' @ [CHR 0xE1] @ ''s probable: ''
                                       @ fst most_likely_outcome,
                          rec_confidence = conf\<rparr>]
                        @ (case top_actions of
                             [] \<Rightarrow> []
                           | a # as \<Rightarrow>
                               [\<lparr>rec_type = ''action_suggestion'',
                                 suggestion = ''Acci'' @ [CHR 0xF3] @ ''n recomendada: '' @ fst a,
                                 rec_confidence = snd a / total\<rparr>])
                        @ (if conf > 0.8
                           then [\<lparr>rec_type = ''pattern_alert'',
                                  suggestion = ''Patr'' @ [CHR 0xF3] @ ''n muy consistente detectado'',
                                  rec_confidence = conf\<rparr>]
                           else []),
                      confidence = conf,
                      similar_cases_count = length scs,
                      similar_cases = scs\<rparr>)))"

definition get_recommendations ::
  "env \<Rightarrow> case_rec list \<Rightarrow> (string \<times> val) list \<Rightarrow> exn + recommendations_result" where
  "get_recommendations e cs current_facts =
     (case find_similar_cases e cs current_facts 5 0.4 of
        Inl x \<Rightarrow> Inl x
      | Inr scs \<Rightarrow>
          (if scs = [] then
             Inr \<lparr>recommendations = [], confidence = 0, similar_cases_count = 0,
                  similar_cases = []\<rparr>
           else recommend_neighbors scs))"

text \<open>
  A rule fires on the facts: it is to be evaluated, and its condition evaluates to a true
  value.
\<close>

definition fires :: "env \<Rightarrow> facts \<Rightarrow> rule \<Rightarrow> bool" where
  "fires e fs r =
     (case should_evaluate_rule e fs r of
        Inl x \<Rightarrow> False
      | Inr go \<Rightarrow>
          truthy go \<and> (case evaluate e fs (condition r) of Inl x \<Rightarrow> False | Inr c \<Rightarrow> truthy c))"

text \<open>
  Firing a rule without effect: the action returns \<^verbatim>\<open>None\<close> and leaves the facts as
  they were, the step is appended, the executed flag of the rule is set, and nothing else
  changes.
\<close>

definition fired_without_effect ::
  "env \<Rightarrow> rule \<Rightarrow> inference_step \<Rightarrow> engine_state \<Rightarrow> bool" where
  "fired_without_effect e r step st =
     (execute_action e (action r) r (facts_of st) = Inr (None, facts_of st)
      \<and> fire e r step st =
          Inr (st\<lparr>facts_of := (facts_of st)(executed_key (rule_id r) \<mapsto> VBool True),
                 inference_steps := inference_steps st @ [step]\<rparr>))"



text \<open>
  The similarity-weighted vote of a list of neighbours for an outcome: the sum of the
  similarity scores of the neighbours with that outcome.
\<close>

definition weighted_vote :: "similar_case list \<Rightarrow> string \<Rightarrow> real" where
  "weighted_vote scs o' =
     sum_list (map similarity_score (filter (\<lambda>sc. outcome (sc_case sc) = o') scs))"

section \<open>The grammar of conditions\<close>

text \<open>
  The constructs that \<open>eval_node\<close> does not allow, anywhere in a tree: a node kind without
  a branch (attribute access, arithmetic, subscripts, lambdas and the like), a unary operator
  other than \<^verbatim>\<open>not\<close>, the comparisons \<^verbatim>\<open>is\<close> and \<^verbatim>\<open>is not\<close>, and a call of anything but
  an allow-listed name or a name bound to a callable in the fact environment.
\<close>

fun outside_grammar :: "facts \<Rightarrow> node \<Rightarrow> bool"
  and outside_grammar_list :: "facts \<Rightarrow> node list \<Rightarrow> bool"
  and outside_grammar_cmp :: "facts \<Rightarrow> (cmpop \<times> node) list \<Rightarrow> bool"
where
  "outside_grammar fs (Constant v) = False"
| "outside_grammar fs (Name n) = False"
| "outside_grammar fs (ListNode elts) = outside_grammar_list fs elts"
| "outside_grammar fs (Compare l rest) = (outside_grammar fs l \<or> outside_grammar_cmp fs rest)"
| "outside_grammar fs (BoolOp op vals) = outside_grammar_list fs vals"
| "outside_grammar fs (UnaryOp op operand) = (op \<noteq> Not \<or> outside_grammar fs operand)"
| "outside_grammar fs (Call f args) =
     (case f of
        Name n \<Rightarrow>
          (if n \<in> set ALLOWED_FUNCTIONS then outside_grammar_list fs args
           else (case fs n of Some (VFun c) \<Rightarrow> outside_grammar_list fs args | _ \<Rightarrow> True))
      | _ \<Rightarrow> True)"
| "outside_grammar fs (Attribute v a) = True"
| "outside_grammar fs (BinOp l op r) = True"
| "outside_grammar fs (OtherNode k) = True"
| "outside_grammar_list fs [] = False"
| "outside_grammar_list fs (n # ns) = (outside_grammar fs n \<or> outside_grammar_list fs ns)"
| "outside_grammar_cmp fs [] = False"
| "outside_grammar_cmp fs (oc # rest) =
     (\<not> allowed_cmpop (fst oc) \<or> outside_grammar fs (snd oc) \<or> outside_grammar_cmp fs rest)"

section \<open>Example inputs\<close>

text \<open>
  A concrete environment for the examples. \<open>example_parse\<close> lists the trees Python's parser
  gives for the condition texts used below; \<^verbatim>\<open>duracion === 5\<close>, the invalid condition of
  \<^verbatim>\<open>test_simple_knowledge.py\<close>, is a syntax error. No example calls a builtin or
  converts a string to a float. Its standard output writes every line.
\<close>

definition example_parse :: "string \<Rightarrow> node option" where
  "example_parse s =
     (if s = ''True'' then Some (Constant (VBool True))
      else if s = ''flag'' then Some (Name ''flag'')
      else if s = ''not bloqueo'' then Some (UnaryOp Not (Name ''bloqueo''))
      else if s = ''duracion == 5'' then
        Some (Compare (Name ''duracion'') [(Eq, Constant (VInt 5))])
      else if s = ''duracion > 5'' then
        Some (Compare (Name ''duracion'') [(Gt, Constant (VInt 5))])
      else if s = ''days_since(fecha) > 30'' then
        Some (Compare (Call (Name ''days_since'') [Name ''fecha'']) [(Gt, Constant (VInt 30))])
      else if s = ''motivo.upper() == 1'' then
        Some (Compare (Call (Attribute (Name ''motivo'') ''upper'') []) [(Eq, Constant (VInt 1))])
      else None)"

text \<open>
  A case, the text \<^verbatim>\<open>json.dumps\<close> gives for its content and the MD5 digest of that
  text; the example serialiser and digest know this one content.
\<close>

definition example_case_facts :: "(string \<times> val) list" where
  "example_case_facts = [(''motivo'', VStr ''ART''), (''duracion'', VInt 5)]"

definition example_json :: string where
  \<open>example_json = ''{"actions": ["add_observacion"], "facts": {"duracion": 5, "motivo": "ART"}, "rules": ["cert_missing_critical"]}''\<close>

definition example_json_dumps :: "val \<Rightarrow> exn + string" where
  "example_json_dumps v =
     (if v = case_content example_case_facts [''cert_missing_critical''] [''add_observacion'']
      then Inr example_json else Inl TypeError)"

definition example_md5 :: "string \<Rightarrow> string" where
  "example_md5 s = (if s = example_json then ''29ac73e26bfb49cbd5b52867cdf60e84'' else [])"

definition example_env :: env where
  "example_env =
     \<lparr>now = 0, isoformat = (\<lambda>t. ''1970-01-01T00:00:00''), parse = example_parse,
      builtin = (\<lambda>n vs. Inl TypeError), float_of_str = (\<lambda>s. None),
      json_dumps = example_json_dumps, md5_hexdigest = example_md5,
      print_out = (\<lambda>s. None), exn_str = (\<lambda>x. ''error'')\<rparr>"

text \<open>
  The same environment with a standard output in ASCII, as under
  \<^verbatim>\<open>PYTHONIOENCODING=ascii\<close>: \<^verbatim>\<open>print\<close> raises on a line with a character beyond 127.
\<close>

definition ascii_print :: "string \<Rightarrow> exn option" where
  "ascii_print s =
     (if list_all (\<lambda>c. (of_char c :: nat) < 128) s then None else Some UnicodeEncodeError)"

definition ascii_env :: env where
  "ascii_env = example_env\<lparr>print_out := ascii_print\<rparr>"

definition empty_store :: cbr_state where
  "empty_store = \<lparr>cases = [], db_rows = []\<rparr>"

definition stored_example :: case_rec where
  "stored_example =
     \<lparr>case_id = ''29ac73e26bfb'', case_facts = example_case_facts,
      rules_applied = [''cert_missing_critical''],
      case_actions_taken = [''add_observacion''], outcome = ''approved'', feedback = None,
      similarity_features =
        [(''motivo'', 1), (''duracion'', 5), (''ausencias_ultimo_mes'', 0),
         (''certificate_uploaded'', 0), (''validation_status'', 0.5),
         (''deadline_exceeded'', 0), (''sector'', 0)],
      case_timestamp = 0, expert_validation = False\<rparr>"

text \<open>Two stored cases and a query at similarity 0.9 and 0.6 to them.\<close>

definition example_query :: "(string \<times> val) list" where
  "example_query =
     [(''motivo'', VStr ''ART''), (''duracion'', VInt 5), (''ausencias_ultimo_mes'', VInt 2),
      (''certificate_uploaded'', VBool False), (''validation_status'', VStr ''validated''),
      (''sector'', VStr ''linea1'')]"

definition example_stored :: "string \<Rightarrow> string \<Rightarrow> features \<Rightarrow> case_rec" where
  "example_stored cid outc feats =
     \<lparr>case_id = cid, case_facts = [], rules_applied = [], case_actions_taken = [],
      outcome = outc, feedback = None, similarity_features = feats, case_timestamp = 0,
      expert_validation = False\<rparr>"

definition case_approved :: case_rec where
  "case_approved = example_stored ''aaaaaaaaaaaa'' ''approved''
     [(''motivo'', 1), (''duracion'', 5), (''ausencias_ultimo_mes'', 2),
      (''certificate_uploaded'', 0), (''validation_status'', 0.5),
      (''deadline_exceeded'', 0), (''sector'', 1)]"

definition case_escalated :: case_rec where
  "case_escalated = example_stored ''bbbbbbbbbbbb'' ''escalated''
     [(''motivo'', 2), (''duracion'', 5), (''ausencias_ultimo_mes'', 2),
      (''certificate_uploaded'', 1), (''validation_status'', 1),
      (''deadline_exceeded'', 0), (''sector'', 1)]"

definition query_features :: features where
  "query_features =
     [(''motivo'', 1), (''duracion'', 5), (''ausencias_ultimo_mes'', 2),
      (''certificate_uploaded'', 0), (''validation_status'', 1),
      (''deadline_exceeded'', 0), (''sector'', 1)]"

definition example_facts :: facts where
  "example_facts = [''motivo'' \<mapsto> VStr ''ART'', ''duracion'' \<mapsto> VInt 8]"

definition example_rule :: "string \<Rightarrow> int \<Rightarrow> string \<Rightarrow> string \<Rightarrow> rule" where
  "example_rule rid p c a =
     \<lparr>rule_id = rid, rule_name = rid, condition = c, action = a, priority = Some p,
      severity = None, activation_condition = None\<rparr>"

definition foo_rule :: rule where
  "foo_rule = example_rule ''r1'' 10 ''True'' ''foo(''"

text \<open>
  Rules with a true condition whose action texts are \<^verbatim>\<open>foo()\<close>, \<^verbatim>\<open>set_fact(x)\<close>,
  \<^verbatim>\<open>mark_sanction(()\<close> and \<^verbatim>\<open>set_fact(,)\<close>.
\<close>

definition foo_call_rule :: rule where
  "foo_call_rule = example_rule ''r1'' 10 ''True'' ''foo()''"

definition one_arg_rule :: rule where
  "one_arg_rule = example_rule ''r1'' 10 ''True'' ''set_fact(x)''"

definition unbalanced_rule :: rule where
  "unbalanced_rule = example_rule ''r1'' 10 ''True'' ''mark_sanction(()''"

definition empty_args_rule :: rule where
  "empty_args_rule = example_rule ''r1'' 10 ''True'' ''set_fact(,)''"

text \<open>The action texts \<^verbatim>\<open>set_fact('name', value)\<close> of the examples.\<close>

definition set_fact_text :: "string \<Rightarrow> string \<Rightarrow> string" where
  "set_fact_text n t = ''set_fact('' @ [CHR 0x27] @ n @ [CHR 0x27] @ '','' @ t @ '')''"










section \<open>Facts about the action parser\<close>

lemma takeWhile_until: "c \<notin> set p \<Longrightarrow> takeWhile (\<lambda>x. x \<noteq> c) (p @ c # t) = p"
  by (induction p) auto

lemma dropWhile_until: "c \<notin> set p \<Longrightarrow> dropWhile (\<lambda>x. x \<noteq> c) (p @ c # t) = c # t"
  by (induction p) auto

lemma split1_comma:
  "CHR '','' \<notin> set p \<Longrightarrow> split1 (CHR '','') (p @ CHR '','' # t) = [p, t]"
  by (simp add: split1_def takeWhile_until dropWhile_until)

lemma strip_quoted: "\<not> is_space q \<Longrightarrow> strip (q # s @ [q]) = q # s @ [q]"
  by (simp add: strip_def)

lemma strip_idem: "strip (strip s) = strip s"
  unfolding strip_def
  by (metis (no_types, lifting) ext Nil_is_rev_conv dropWhile_eq_Nil_conv
    dropWhile_eq_self_iff dropWhile_last hd_dropWhile last_rev rev_swap)

lemma extract_strip: "extract_string_arg (strip s) = extract_string_arg s"
  by (simp add: extract_string_arg_def strip_idem)

lemma extract_quoted: "extract_string_arg (CHR 0x27 # s @ [CHR 0x27]) = s"
  by (simp add: extract_string_arg_def strip_quoted is_space_def startswith_def endswith_def
      Let_def butlast_append)

lemma func_name_set_fact: "func_name_of (''set_fact('' @ rest) = ''set_fact''"
  by (simp add: func_name_of_def split_head_def strip_def is_space_def)

lemma args_str_set_fact: "args_str_of (''set_fact('' @ body @ '')'') = body"
  by (simp add: args_str_of_def rsplit1_head_def)

lemma execute_set_fact:
  assumes "CHR '','' \<notin> set n"
  shows "execute_action e (set_fact_text n t) r fs
     = Inr (Some (''Hecho establecido: '' @ n @ '' = '' @ extract_string_arg t),
            fs(n \<mapsto> VStr (extract_string_arg t)))"
proof -
  let ?p = "[CHR 0x27] @ n @ [CHR 0x27]"
  have sp: "split1 (CHR '','') (?p @ CHR '','' # t) = [?p, t]"
    using assms by (intro split1_comma) simp
  have a: "args_str_of (''set_fact('' @ (?p @ CHR '','' # t) @ '')'') = ?p @ CHR '','' # t"
    by (rule args_str_set_fact)
  have f: "func_name_of (''set_fact('' @ ((?p @ CHR '','' # t) @ '')'')) = ''set_fact''"
    by (rule func_name_set_fact)
  show ?thesis
    using sp a f extract_quoted[of n]
    by (simp add: execute_action_def set_fact_text_def Let_def extract_strip)
qed

lemma execute_action_no_parens:
  "CHR ''('' \<notin> set a \<or> CHR '')'' \<notin> set a \<Longrightarrow> execute_action e a r fs = Inr (None, fs)"
  by (auto simp: execute_action_def)

lemma execute_action_one_arg:
  "func_name_of a = ''set_fact'' \<Longrightarrow> CHR '','' \<notin> set (args_str_of a) \<Longrightarrow>
     execute_action e a r fs = Inr (None, fs)"
  by (auto simp: execute_action_def Let_def split1_def)

lemma execute_action_unknown_name:
  assumes "CHR ''('' \<in> set a" "CHR '')'' \<in> set a"
    and "func_name_of a \<notin>
           set [''add_observacion'', ''mark_sanction'', ''set_fact'', ''require_approval'']"
  shows "execute_action e a r fs =
           (case print_out e (unrecognized_message (func_name_of a)) of
              None \<Rightarrow> Inr (None, fs)
            | Some x \<Rightarrow> action_except e a x fs)"
  using assms by (auto simp: execute_action_def Let_def)

lemma func_name_plain:
  "CHR ''('' \<notin> set n \<Longrightarrow> strip n = n \<Longrightarrow> func_name_of (n @ CHR ''('' # rest) = n"
  by (simp add: func_name_of_def split_head_def takeWhile_until)

section \<open>Facts about the evaluator\<close>

lemma outside_grammar_fails:
  "(outside_grammar fs n \<longrightarrow> (\<exists>x. eval_node e fs n = Inl x))"
  "(outside_grammar_list fs ns \<longrightarrow> (\<exists>x. eval_list e fs ns = Inl x))"
  "(outside_grammar_cmp fs rest \<longrightarrow> (\<exists>x. eval_compare e fs left result rest = Inl x))"
proof (induction e fs n and e fs ns and e fs left result rest
       rule: eval_node_eval_list_eval_compare.induct)
  case (7 e fs f args)
  show ?case
  proof (cases f)
    case (Name func_name)
    show ?thesis
    proof (cases "func_name \<in> set ALLOWED_FUNCTIONS")
      case True
      with Name 7(1) show ?thesis by (auto split: sum.splits)
    next
      case False
      show ?thesis
      proof (cases "fs func_name")
        case None
        with Name False show ?thesis by simp
      next
        case (Some v)
        show ?thesis
        proof (cases v)
          case (VFun c)
          with Name False Some 7(2)[of func_name v c] show ?thesis
            by (auto split: sum.splits)
        qed (use Name False Some in auto)
      qed
    qed
  qed auto
next
  case (14 e fs left result oc rest)
  then show ?case
    by (auto simp: map_result_def split: sum.splits)
qed (auto simp: map_result_def split: sum.splits list.splits)

text \<open>
  Claim C2. The claim is that \<open>evaluate\<close> never raises to its caller: a failure of parsing
  or of evaluation is caught and gives \<^verbatim>\<open>False\<close>. The handler that catches it first
  prints a line that holds the expression text, and that \<^verbatim>\<open>print\<close> is not guarded.
  A text that does not parse gives \<^verbatim>\<open>SyntaxError\<close> in the body, a tree that uses a
  construct outside the grammar anywhere gives an exception in the body, and for every
  exception of the body: when the line is written, \<open>evaluate\<close> returns \<^verbatim>\<open>False\<close>; when
  \<^verbatim>\<open>print\<close> raises, its exception leaves \<open>evaluate\<close>. A value of the body is returned as
  it is. Strings being lists of code points below 256 here, a text with a lone surrogate,
  which an output in UTF-8 cannot write, has no counterpart; the example takes an output
  in ASCII, which cannot write the accented letter of the line itself.
\<close>

theorem evaluate_print_escapes:
  "(parse e text = None \<longrightarrow> evaluate_body e fs text = Inl SyntaxError)
   \<and> (\<forall>tree. parse e text = Some tree \<and> outside_grammar fs tree \<longrightarrow>
         (\<exists>x. evaluate_body e fs text = Inl x))
   \<and> (\<forall>x. evaluate_body e fs text = Inl x \<longrightarrow>
         (print_out e (eval_message e text x) = None \<longrightarrow> evaluate e fs text = Inr (VBool False))
       \<and> (\<forall>y. print_out e (eval_message e text x) = Some y \<longrightarrow> evaluate e fs text = Inl y))
   \<and> (\<forall>v. evaluate_body e fs text = Inr v \<longrightarrow> evaluate e fs text = Inr v)"
proof -
  have "\<exists>x. evaluate_body e fs text = Inl x"
    if "parse e text = Some tree" "outside_grammar fs tree" for tree
    using that outside_grammar_fails(1)[of fs tree e] by (auto simp: evaluate_body_def)
  then show ?thesis
    by (auto simp: evaluate_def evaluate_body_def)
qed

lemma ascii_eval_message:
  "print_out ascii_env (eval_message ascii_env text x) = Some UnicodeEncodeError"
  by (simp add: ascii_env_def ascii_print_def eval_message_def)

theorem evaluate_print_escapes_witness:
  "parse ascii_env ''duracion === 5'' = None
   \<and> evaluate_body ascii_env example_facts ''duracion === 5'' = Inl SyntaxError
   \<and> print_out ascii_env (eval_message ascii_env ''duracion === 5'' SyntaxError)
        = Some UnicodeEncodeError
   \<and> evaluate ascii_env example_facts ''duracion === 5'' = Inl UnicodeEncodeError
   \<and> evaluate example_env example_facts ''duracion === 5'' = Inr (VBool False)
   \<and> evaluate example_env example_facts ''motivo.upper() == 1'' = Inr (VBool False)
   \<and> evaluate example_env example_facts ''duracion > 5'' = Inr (VBool True)"
proof -
  have p1: "parse ascii_env ''duracion === 5'' = None" "parse example_env ''duracion === 5'' = None"
    by (simp_all add: ascii_env_def example_env_def example_parse_def)
  have p2: "parse example_env ''motivo.upper() == 1''
       = Some (Compare (Call (Attribute (Name ''motivo'') ''upper'') []) [(Eq, Constant (VInt 1))])"
    by (simp add: example_env_def example_parse_def)
  have o: "outside_grammar example_facts
        (Compare (Call (Attribute (Name ''motivo'') ''upper'') []) [(Eq, Constant (VInt 1))])"
    by simp
  have v: "evaluate_body example_env example_facts ''duracion > 5'' = Inr (VBool True)"
    by (simp add: evaluate_body_def example_env_def example_parse_def example_facts_def
        ALLOWED_FUNCTIONS_def allowed_cmpop_def apply_cmp_def map_result_def num_cmp_def)
  have w: "print_out example_env s = None" for s
    by (simp add: example_env_def)
  show ?thesis
    using evaluate_print_escapes[of ascii_env "''duracion === 5''" example_facts]
      evaluate_print_escapes[of example_env "''duracion === 5''" example_facts]
      evaluate_print_escapes[of example_env "''motivo.upper() == 1''" example_facts]
      evaluate_print_escapes[of example_env "''duracion > 5''" example_facts]
      p1 p2 o v w ascii_eval_message
    by auto
qed

section \<open>Facts about one scan\<close>


lemma evaluate_rule_Some:
  "evaluate_rule e fs r = Inr (Some step) \<longleftrightarrow>
     (\<exists>c. evaluate e fs (condition r) = Inr c \<and> step = make_step e fs r c)"
proof (cases "evaluate e fs (condition r)")
  case (Inl x)
  then show ?thesis
    by (cases "print_out e (rule_message e (rule_id r) x)") (auto simp: evaluate_rule_def)
next
  case (Inr c)
  then show ?thesis by (auto simp: evaluate_rule_def)
qed

lemma evaluate_rule_fields:
  "evaluate_rule e fs r = Inr (Some step) \<Longrightarrow>
     step_rule_id step = rule_id r \<and> step_rule_name step = rule_name r \<and>
     step_condition step = condition r \<and> step_action step = action r \<and>
     (\<exists>c. evaluate e fs (condition r) = Inr c \<and> condition_result step = truthy c)"
  unfolding evaluate_rule_Some by (auto simp: make_step_def)

lemma fires_iff:
  "fires e fs r \<longleftrightarrow>
     (\<exists>go step. should_evaluate_rule e fs r = Inr go \<and> truthy go
        \<and> evaluate_rule e fs r = Inr (Some step) \<and> condition_result step)"
proof (cases "should_evaluate_rule e fs r")
  case (Inl x)
  then show ?thesis by (simp add: fires_def)
next
  case (Inr go)
  show ?thesis
  proof (cases "evaluate e fs (condition r)")
    case (Inl x)
    then show ?thesis using Inr by (simp add: fires_def evaluate_rule_Some)
  next
    case c: (Inr c)
    then show ?thesis using Inr by (simp add: fires_def evaluate_rule_Some make_step_def)
  qed
qed

lemma scan_Cons_fires:
  assumes "fires e fs x"
  shows "\<exists>s. scan e fs (x # rules) = Inr (Some (x, s)) \<and> evaluate_rule e fs x = Inr (Some s)
            \<and> condition_result s"
proof -
  obtain go s where "should_evaluate_rule e fs x = Inr go" "truthy go"
      "evaluate_rule e fs x = Inr (Some s)" "condition_result s"
    using assms unfolding fires_iff by blast
  then show ?thesis by simp
qed

lemma scan_Cons_skip:
  assumes "\<not> fires e fs x" "scan e fs (x # rules) = Inr res"
  shows "scan e fs rules = Inr res"
proof (cases "should_evaluate_rule e fs x")
  case (Inl y)
  then show ?thesis using assms(2) by simp
next
  case (Inr go)
  show ?thesis
  proof (cases "truthy go")
    case False
    then show ?thesis using assms(2) Inr by simp
  next
    case True
    show ?thesis
    proof (cases "evaluate_rule e fs x")
      case (Inl y)
      then show ?thesis using assms(2) Inr True by simp
    next
      case r: (Inr so)
      show ?thesis
      proof (cases so)
        case None
        then show ?thesis using assms(2) Inr True r by simp
      next
        case (Some s)
        have "\<not> condition_result s"
          using assms(1) Inr True r Some unfolding fires_iff by simp
        then show ?thesis using assms(2) Inr True r Some by simp
      qed
    qed
  qed
qed

lemma scan_Some:
  "scan e fs rules = Inr (Some (r, step)) \<Longrightarrow>
     r \<in> set rules \<and> fires e fs r \<and> evaluate_rule e fs r = Inr (Some step)
     \<and> condition_result step"
proof (induction rules)
  case Nil
  then show ?case by simp
next
  case (Cons x rules)
  show ?case
  proof (cases "fires e fs x")
    case True
    from scan_Cons_fires[OF True, of rules] Cons.prems True show ?thesis by auto
  next
    case False
    from scan_Cons_skip[OF False Cons.prems] Cons.IH show ?thesis by simp
  qed
qed






lemma print_example: "print_out example_env s = None"
  by (simp add: example_env_def)

lemma eval_True: "evaluate example_env fs ''True'' = Inr (VBool True)"
  by (simp add: evaluate_def evaluate_body_def example_env_def example_parse_def)

lemma scan_foo:
  "scan example_env (facts_of (initial_state example_env example_facts)) [foo_rule]
     = Inr (Some (foo_rule,
         make_step example_env (facts_of (initial_state example_env example_facts)) foo_rule
           (VBool True)))"
  by (simp add: foo_rule_def example_rule_def should_evaluate_rule_def rule_executed_def
      evaluate_rule_def eval_True make_step_def
      initial_state_def add_special_functions_def example_facts_def executed_key_def
      split del: if_split)
section \<open>Facts about one iteration\<close>

lemma loop_fire:
  "iteration st < m \<Longrightarrow> scan e (facts_of st) rules = Inr (Some (r, step)) \<Longrightarrow>
     loop e rules m st =
       (case fire e r step (st\<lparr>iteration := iteration st + 1\<rparr>) of
          Inl x \<Rightarrow> Inl x
        | Inr st2 \<Rightarrow> loop e rules m st2)"
  by (subst loop.simps) (simp add: Let_def)

lemma loop_none:
  "iteration st < m \<Longrightarrow> scan e (facts_of st) rules = Inr None \<Longrightarrow>
     loop e rules m st = Inr (st\<lparr>iteration := iteration st + 1\<rparr>)"
  by (subst loop.simps) (simp add: Let_def)



lemma fire_Inr:
  "execute_action e (action r) r (facts_of st) = Inr (out, fs1) \<Longrightarrow>
     fire e r step st =
       Inr (st\<lparr>facts_of := fs1(executed_key (rule_id r) \<mapsto> VBool True),
              inference_steps := inference_steps st @ [step],
              conclusions := (if out \<noteq> None \<and> out \<noteq> Some []
                              then conclusions st @ [step_rule_name step] else conclusions st),
              actions_taken := (if out \<noteq> None \<and> out \<noteq> Some []
                                then actions_taken st @ [the out] else actions_taken st)\<rparr>)"
  by (cases out) (simp_all add: fire_def)

lemma fire_noop:
  "execute_action e (action r) r (facts_of st) = Inr (None, facts_of st) \<Longrightarrow>
     fired_without_effect e r step st"
  by (simp add: fired_without_effect_def fire_def)

lemma fire_raises:
  "execute_action e (action r) r (facts_of st) = Inl y \<Longrightarrow> fire e r step st = Inl y"
  by (simp add: fire_def)

lemma eval_True_parse: "parse e = example_parse \<Longrightarrow> evaluate e fs ''True'' = Inr (VBool True)"
  by (simp add: evaluate_def evaluate_body_def example_parse_def)

lemma parse_example: "parse example_env = example_parse"
  by (simp add: example_env_def)

lemma parse_ascii: "parse ascii_env = example_parse"
  by (simp add: ascii_env_def example_env_def)

lemma scan_true_rule:
  assumes "parse e = example_parse"
  shows "scan e (facts_of (initial_state e example_facts)) [example_rule ''r1'' p ''True'' a]
     = Inr (Some (example_rule ''r1'' p ''True'' a,
         make_step e (facts_of (initial_state e example_facts))
           (example_rule ''r1'' p ''True'' a) (VBool True)))"
  by (simp add: example_rule_def should_evaluate_rule_def rule_executed_def
      evaluate_rule_def eval_True_parse[OF assms] make_step_def
      initial_state_def add_special_functions_def example_facts_def executed_key_def
      split del: if_split)

lemma scan_executed:
  "scan e (fs(''rule_r1_executed'' \<mapsto> VBool True)) [example_rule ''r1'' p c a] = Inr None"
  by (simp add: example_rule_def should_evaluate_rule_def rule_executed_def executed_key_def)

text \<open>
  The run of a single rule with the condition \<^verbatim>\<open>True\<close>: it fires in the first iteration
  and the second scan ends the loop, or the exception of its action ends the run.
\<close>

lemma single_rule_run:
  assumes "parse e = example_parse"
    and "execute_action e a (example_rule ''r1'' p ''True'' a)
           (facts_of (initial_state e example_facts)) = Inr (out, fs1)"
  shows "forward_chaining e [example_rule ''r1'' p ''True'' a] example_facts 100 =
     Inr \<lparr>res_conclusions = (if out \<noteq> None \<and> out \<noteq> Some [] then [''r1''] else []),
          res_actions_taken = (if out \<noteq> None \<and> out \<noteq> Some [] then [the out] else []),
          res_steps = [make_step e (facts_of (initial_state e example_facts))
                         (example_rule ''r1'' p ''True'' a) (VBool True)],
          final_facts = fs1(''rule_r1_executed'' \<mapsto> VBool True)\<rparr>"
proof -
  let ?r = "example_rule ''r1'' p ''True'' a"
  let ?st = "initial_state e example_facts"
  let ?st1 = "?st\<lparr>iteration := iteration ?st + 1\<rparr>"
  let ?step = "make_step e (facts_of ?st) ?r (VBool True)"
  have it: "iteration ?st = 0" by (simp add: initial_state_def)
  have ex: "execute_action e (action ?r) ?r (facts_of ?st1) = Inr (out, fs1)"
    using assms(2) by (simp add: example_rule_def)
  define st2 where "st2 =
     ?st1\<lparr>facts_of := fs1(executed_key (rule_id ?r) \<mapsto> VBool True),
          inference_steps := inference_steps ?st1 @ [?step],
          conclusions := (if out \<noteq> None \<and> out \<noteq> Some []
                          then conclusions ?st1 @ [step_rule_name ?step] else conclusions ?st1),
          actions_taken := (if out \<noteq> None \<and> out \<noteq> Some []
                            then actions_taken ?st1 @ [the out] else actions_taken ?st1)\<rparr>"
  have f: "fire e ?r ?step ?st1 = Inr st2"
    unfolding st2_def by (rule fire_Inr[OF ex])
  have st2: "facts_of st2 = fs1(''rule_r1_executed'' \<mapsto> VBool True)"
      "iteration st2 = 1" "inference_steps st2 = [?step]"
      "conclusions st2 = (if out \<noteq> None \<and> out \<noteq> Some [] then [''r1''] else [])"
      "actions_taken st2 = (if out \<noteq> None \<and> out \<noteq> Some [] then [the out] else [])"
    by (simp_all add: st2_def initial_state_def executed_key_def example_rule_def make_step_def)
  have l1: "loop e [?r] 100 ?st = loop e [?r] 100 st2"
    using loop_fire[of ?st 100 e "[?r]" ?r ?step] scan_true_rule[OF assms(1), of p a] it f
    by simp
  have "scan e (facts_of st2) [?r] = Inr None"
    unfolding st2(1) by (rule scan_executed)
  then have "loop e [?r] 100 st2 = Inr (st2\<lparr>iteration := iteration st2 + 1\<rparr>)"
    using loop_none[of st2 100 e "[?r]"] st2(2) by simp
  then show ?thesis
    using l1 st2 by (simp add: forward_chaining_def)
qed

lemma single_rule_raises:
  assumes "parse e = example_parse"
    and "execute_action e a (example_rule ''r1'' p ''True'' a)
           (facts_of (initial_state e example_facts)) = Inl y"
  shows "forward_chaining e [example_rule ''r1'' p ''True'' a] example_facts 100 = Inl y"
proof -
  let ?r = "example_rule ''r1'' p ''True'' a"
  let ?st = "initial_state e example_facts"
  let ?step = "make_step e (facts_of ?st) ?r (VBool True)"
  have it: "iteration ?st = 0" by (simp add: initial_state_def)
  have "execute_action e (action ?r) ?r (facts_of (?st\<lparr>iteration := iteration ?st + 1\<rparr>)) = Inl y"
    using assms(2) by (simp add: example_rule_def)
  then have "fire e ?r ?step (?st\<lparr>iteration := iteration ?st + 1\<rparr>) = Inl y"
    by (rule fire_raises)
  then have "loop e [?r] 100 ?st = Inl y"
    using loop_fire[of ?st 100 e "[?r]" ?r ?step] scan_true_rule[OF assms(1), of p a] it
    by simp
  then show ?thesis by (simp add: forward_chaining_def)
qed

section \<open>Actions\<close>

lemma execute_action_args_ignored:
  assumes "CHR ''('' \<in> set a" "CHR '')'' \<in> set a"
  shows "func_name_of a = ''mark_sanction'' \<Longrightarrow>
           execute_action e a r fs =
             Inr (Some (''Sanci'' @ [CHR 0xF3] @ ''n aplicada''), mark_sanction r fs)"
    and "func_name_of a = ''require_approval'' \<Longrightarrow>
           execute_action e a r fs =
             Inr (Some (''Requiere aprobaci'' @ [CHR 0xF3] @ ''n supervisor''),
                  require_approval r fs)"
  using assms by (simp_all add: execute_action_def)

lemma print_ascii_unrecognized:
  "print_out ascii_env (unrecognized_message n) = Some UnicodeEncodeError"
  by (simp add: ascii_env_def ascii_print_def unrecognized_message_def)

lemma print_ascii_action:
  "print_out ascii_env (action_message ascii_env a x) = Some UnicodeEncodeError"
  by (simp add: ascii_env_def ascii_print_def action_message_def)

lemma func_name_foo: "func_name_of ''foo()'' = ''foo''"
  by (simp add: func_name_of_def split_head_def strip_def is_space_def)

text \<open>
  Claim C4. When the scan reaches a rule, its step has a true \<open>condition_result\<close>. The
  rule then fires without effect (the action returns \<^verbatim>\<open>None\<close> and leaves every fact as it
  was, the step is appended, the executed flag of the rule is set and nothing else of the
  state changes) for these action texts: a text without \<^verbatim>\<open>(\<close> or without \<^verbatim>\<open>)\<close>, as
  \<^verbatim>\<open>foo(\<close>, for which nothing is printed; \<^verbatim>\<open>set_fact\<close> without a comma after its first
  parenthesis; and a text with both parentheses whose name before the first \<^verbatim>\<open>(\<close> is none
  of the four actions, when the line that reports the name can be printed or, that
  \<^verbatim>\<open>print\<close> raising, the line of the handler can. When both lines cannot be printed, the
  exception of the second \<^verbatim>\<open>print\<close> leaves \<^verbatim>\<open>_execute_action\<close> and the run. A text with
  both parentheses and the name \<^verbatim>\<open>mark_sanction\<close> or \<^verbatim>\<open>require_approval\<close> runs that action
  whatever stands between the parentheses.
\<close>

theorem unrecognized_action_noop:
  assumes "scan e (facts_of st) rules = Inr (Some (r, step))"
  shows "condition_result step \<and> step_rule_id step = rule_id r \<and> step_action step = action r
     \<and> (CHR ''('' \<notin> set (action r) \<or> CHR '')'' \<notin> set (action r)
          \<longrightarrow> fired_without_effect e r step st)
     \<and> (func_name_of (action r) = ''set_fact'' \<and> CHR '','' \<notin> set (args_str_of (action r))
          \<longrightarrow> fired_without_effect e r step st)
     \<and> (CHR ''('' \<in> set (action r) \<and> CHR '')'' \<in> set (action r)
        \<and> func_name_of (action r) \<notin>
             set [''add_observacion'', ''mark_sanction'', ''set_fact'', ''require_approval'']
          \<longrightarrow> (print_out e (unrecognized_message (func_name_of (action r))) = None
                 \<longrightarrow> fired_without_effect e r step st)
              \<and> (\<forall>x. print_out e (unrecognized_message (func_name_of (action r))) = Some x
                   \<longrightarrow> (print_out e (action_message e (action r) x) = None
                          \<longrightarrow> fired_without_effect e r step st)
                      \<and> (\<forall>y. print_out e (action_message e (action r) x) = Some y
                            \<longrightarrow> execute_action e (action r) r (facts_of st) = Inl y
                                \<and> fire e r step st = Inl y)))
     \<and> (CHR ''('' \<in> set (action r) \<and> CHR '')'' \<in> set (action r)
        \<and> func_name_of (action r) = ''mark_sanction''
          \<longrightarrow> execute_action e (action r) r (facts_of st) =
                Inr (Some (''Sanci'' @ [CHR 0xF3] @ ''n aplicada''), mark_sanction r (facts_of st)))
     \<and> (CHR ''('' \<in> set (action r) \<and> CHR '')'' \<in> set (action r)
        \<and> func_name_of (action r) = ''require_approval''
          \<longrightarrow> execute_action e (action r) r (facts_of st) =
                Inr (Some (''Requiere aprobaci'' @ [CHR 0xF3] @ ''n supervisor''),
                     require_approval r (facts_of st)))"
proof -
  let ?a = "action r" and ?fs = "facts_of st"
  have step: "condition_result step" "step_rule_id step = rule_id r" "step_action step = action r"
    using scan_Some[OF assms] evaluate_rule_fields[of e ?fs r step] by auto
  have parens: "CHR ''('' \<notin> set ?a \<or> CHR '')'' \<notin> set ?a \<longrightarrow> fired_without_effect e r step st"
    using execute_action_no_parens[of ?a e r ?fs] fire_noop by blast
  have one: "func_name_of ?a = ''set_fact'' \<and> CHR '','' \<notin> set (args_str_of ?a)
               \<longrightarrow> fired_without_effect e r step st"
    using execute_action_one_arg[of ?a e r ?fs] fire_noop by blast
  have unknown: "(print_out e (unrecognized_message (func_name_of ?a)) = None
                 \<longrightarrow> fired_without_effect e r step st)
              \<and> (\<forall>x. print_out e (unrecognized_message (func_name_of ?a)) = Some x
                   \<longrightarrow> (print_out e (action_message e ?a x) = None
                          \<longrightarrow> fired_without_effect e r step st)
                      \<and> (\<forall>y. print_out e (action_message e ?a x) = Some y
                            \<longrightarrow> execute_action e ?a r ?fs = Inl y \<and> fire e r step st = Inl y))"
    if u: "CHR ''('' \<in> set ?a" "CHR '')'' \<in> set ?a"
      "func_name_of ?a \<notin>
         set [''add_observacion'', ''mark_sanction'', ''set_fact'', ''require_approval'']"
  proof -
    note ex = execute_action_unknown_name[OF u, of e r ?fs]
    have a: "print_out e (unrecognized_message (func_name_of ?a)) = None
               \<Longrightarrow> fired_without_effect e r step st"
      using ex by (simp add: fire_noop)
    have b: "fired_without_effect e r step st"
      if "print_out e (unrecognized_message (func_name_of ?a)) = Some x"
        "print_out e (action_message e ?a x) = None" for x
      using ex that by (simp add: fire_noop action_except_def)
    have c: "execute_action e ?a r ?fs = Inl y \<and> fire e r step st = Inl y"
      if "print_out e (unrecognized_message (func_name_of ?a)) = Some x"
        "print_out e (action_message e ?a x) = Some y" for x y
    proof -
      have "execute_action e ?a r ?fs = Inl y"
        using ex that by (simp add: action_except_def)
      then show ?thesis using fire_raises by blast
    qed
    show ?thesis using a b c by blast
  qed
  have ms: "CHR ''('' \<in> set ?a \<and> CHR '')'' \<in> set ?a \<and> func_name_of ?a = ''mark_sanction''
          \<longrightarrow> execute_action e ?a r ?fs =
                Inr (Some (''Sanci'' @ [CHR 0xF3] @ ''n aplicada''), mark_sanction r ?fs)"
    using execute_action_args_ignored(1) by blast
  have ra: "CHR ''('' \<in> set ?a \<and> CHR '')'' \<in> set ?a \<and> func_name_of ?a = ''require_approval''
          \<longrightarrow> execute_action e ?a r ?fs =
                Inr (Some (''Requiere aprobaci'' @ [CHR 0xF3] @ ''n supervisor''),
                     require_approval r ?fs)"
    using execute_action_args_ignored(2) by blast
  show ?thesis
    using step parens one unknown ms ra by blast
qed

theorem unrecognized_action_noop_witness:
  "scan example_env (facts_of (initial_state example_env example_facts)) [foo_rule]
     = Inr (Some (foo_rule,
         make_step example_env (facts_of (initial_state example_env example_facts)) foo_rule
           (VBool True)))
   \<and> CHR '')'' \<notin> set (action foo_rule)
   \<and> condition_result
        (make_step example_env (facts_of (initial_state example_env example_facts)) foo_rule
           (VBool True))
   \<and> fired_without_effect example_env foo_rule
        (make_step example_env (facts_of (initial_state example_env example_facts)) foo_rule
           (VBool True))
        (initial_state example_env example_facts)
   \<and> forward_chaining example_env [foo_rule] example_facts 100 =
       Inr \<lparr>res_conclusions = [], res_actions_taken = [],
            res_steps = [make_step example_env
                           (facts_of (initial_state example_env example_facts)) foo_rule
                           (VBool True)],
            final_facts = (facts_of (initial_state example_env example_facts))
                            (''rule_r1_executed'' \<mapsto> VBool True)\<rparr>
   \<and> func_name_of (action foo_call_rule) = ''foo''
   \<and> print_out example_env (unrecognized_message ''foo'') = None
   \<and> fired_without_effect example_env foo_call_rule
        (make_step example_env (facts_of (initial_state example_env example_facts))
           foo_call_rule (VBool True))
        (initial_state example_env example_facts)
   \<and> func_name_of (action one_arg_rule) = ''set_fact''
   \<and> args_str_of (action one_arg_rule) = ''x''
   \<and> fired_without_effect example_env one_arg_rule
        (make_step example_env (facts_of (initial_state example_env example_facts))
           one_arg_rule (VBool True))
        (initial_state example_env example_facts)
   \<and> print_out ascii_env (unrecognized_message ''foo'') = Some UnicodeEncodeError
   \<and> print_out ascii_env (action_message ascii_env (action foo_call_rule) UnicodeEncodeError)
       = Some UnicodeEncodeError
   \<and> fire ascii_env foo_call_rule
        (make_step ascii_env (facts_of (initial_state ascii_env example_facts))
           foo_call_rule (VBool True))
        (initial_state ascii_env example_facts) = Inl UnicodeEncodeError
   \<and> func_name_of (action unbalanced_rule) = ''mark_sanction''
   \<and> execute_action example_env (action unbalanced_rule) unbalanced_rule
        (facts_of (initial_state example_env example_facts)) =
       Inr (Some (''Sanci'' @ [CHR 0xF3] @ ''n aplicada''),
            mark_sanction unbalanced_rule (facts_of (initial_state example_env example_facts)))"
proof -
  let ?st = "initial_state example_env example_facts"
  let ?sta = "initial_state ascii_env example_facts"
  have s1: "scan example_env (facts_of ?st) [foo_rule]
     = Inr (Some (foo_rule, make_step example_env (facts_of ?st) foo_rule (VBool True)))"
    unfolding foo_rule_def by (rule scan_true_rule[OF parse_example])
  have s2: "scan example_env (facts_of ?st) [foo_call_rule]
     = Inr (Some (foo_call_rule, make_step example_env (facts_of ?st) foo_call_rule (VBool True)))"
    unfolding foo_call_rule_def by (rule scan_true_rule[OF parse_example])
  have s3: "scan example_env (facts_of ?st) [one_arg_rule]
     = Inr (Some (one_arg_rule, make_step example_env (facts_of ?st) one_arg_rule (VBool True)))"
    unfolding one_arg_rule_def by (rule scan_true_rule[OF parse_example])
  have s4: "scan ascii_env (facts_of ?sta) [foo_call_rule]
     = Inr (Some (foo_call_rule, make_step ascii_env (facts_of ?sta) foo_call_rule (VBool True)))"
    unfolding foo_call_rule_def by (rule scan_true_rule[OF parse_ascii])
  have s5: "scan example_env (facts_of ?st) [unbalanced_rule]
     = Inr (Some (unbalanced_rule,
          make_step example_env (facts_of ?st) unbalanced_rule (VBool True)))"
    unfolding unbalanced_rule_def by (rule scan_true_rule[OF parse_example])
  have a1: "action foo_rule = ''foo(''" by (simp add: foo_rule_def example_rule_def)
  have a2: "action foo_call_rule = ''foo()''" by (simp add: foo_call_rule_def example_rule_def)
  have a3: "action one_arg_rule = ''set_fact(x)''"
    by (simp add: one_arg_rule_def example_rule_def)
  have a5: "action unbalanced_rule = ''mark_sanction(()''"
    by (simp add: unbalanced_rule_def example_rule_def)
  have p1: "CHR '')'' \<notin> set (action foo_rule)" by (simp add: a1)
  have c1: "condition_result (make_step example_env (facts_of ?st) foo_rule (VBool True))"
    by (simp add: make_step_def)
  have f1: "fired_without_effect example_env foo_rule
        (make_step example_env (facts_of ?st) foo_rule (VBool True)) ?st"
    using unrecognized_action_noop[OF s1] p1 by blast
  have "execute_action example_env ''foo('' (example_rule ''r1'' 10 ''True'' ''foo('')
          (facts_of ?st) = Inr (None, facts_of ?st)"
    by (rule execute_action_no_parens) simp
  from single_rule_run[OF parse_example this]
  have run: "forward_chaining example_env [foo_rule] example_facts 100 =
       Inr \<lparr>res_conclusions = [], res_actions_taken = [],
            res_steps = [make_step example_env (facts_of ?st) foo_rule (VBool True)],
            final_facts = (facts_of ?st)(''rule_r1_executed'' \<mapsto> VBool True)\<rparr>"
    by (simp add: foo_rule_def)
  have n2: "func_name_of (action foo_call_rule) = ''foo''"
    by (simp add: a2 func_name_foo)
  have q2: "CHR ''('' \<in> set (action foo_call_rule)" "CHR '')'' \<in> set (action foo_call_rule)"
    "func_name_of (action foo_call_rule) \<notin>
       set [''add_observacion'', ''mark_sanction'', ''set_fact'', ''require_approval'']"
    by (simp_all add: n2) (simp_all add: a2)
  have pr2: "print_out example_env (unrecognized_message ''foo'') = None"
    by (rule print_example)
  have f2: "fired_without_effect example_env foo_call_rule
        (make_step example_env (facts_of ?st) foo_call_rule (VBool True)) ?st"
    using unrecognized_action_noop[OF s2] q2 pr2 unfolding n2 by blast
  have n3: "func_name_of (action one_arg_rule) = ''set_fact''"
    unfolding a3 using func_name_set_fact[of "''x)''"] by simp
  have g3: "args_str_of (action one_arg_rule) = ''x''"
    unfolding a3 using args_str_set_fact[of "''x''"] by simp
  have f3: "fired_without_effect example_env one_arg_rule
        (make_step example_env (facts_of ?st) one_arg_rule (VBool True)) ?st"
    using unrecognized_action_noop[OF s3] n3 g3 by simp
  have pr4: "print_out ascii_env (unrecognized_message ''foo'') = Some UnicodeEncodeError"
    by (rule print_ascii_unrecognized)
  have pr4': "print_out ascii_env (action_message ascii_env (action foo_call_rule)
                 UnicodeEncodeError) = Some UnicodeEncodeError"
    by (rule print_ascii_action)
  have f4: "fire ascii_env foo_call_rule
        (make_step ascii_env (facts_of ?sta) foo_call_rule (VBool True)) ?sta
          = Inl UnicodeEncodeError"
    using unrecognized_action_noop[OF s4] q2 pr4 pr4' unfolding n2 by blast
  have n5: "func_name_of (action unbalanced_rule) = ''mark_sanction''"
    unfolding a5 using func_name_plain[of "''mark_sanction''" "''()''"]
    by (simp add: strip_def is_space_def)
  have q5: "CHR ''('' \<in> set (action unbalanced_rule)" "CHR '')'' \<in> set (action unbalanced_rule)"
    by (simp_all add: a5)
  have f5: "execute_action example_env (action unbalanced_rule) unbalanced_rule (facts_of ?st) =
       Inr (Some (''Sanci'' @ [CHR 0xF3] @ ''n aplicada''),
            mark_sanction unbalanced_rule (facts_of ?st))"
    using unrecognized_action_noop[OF s5] q5 n5 by blast
  show ?thesis
    using s1 p1 c1 f1 run n2 pr2 f2 n3 g3 f3 pr4 pr4' f4 n5 f5 by blast
qed

text \<open>
  Claim C4 as stated does not hold. The action texts \<^verbatim>\<open>mark_sanction(()\<close> and
  \<^verbatim>\<open>set_fact(,)\<close> are malformed, and the rules that carry them change the facts: the
  first runs \<^verbatim>\<open>mark_sanction\<close>, the second stores the empty text under the empty name.
  And the unrecognised \<^verbatim>\<open>foo()\<close> raises \<^verbatim>\<open>UnicodeEncodeError\<close> to the caller of
  \<^verbatim>\<open>forward_chaining\<close> when the standard output is in ASCII.
\<close>

theorem malformed_action_counterexample:
  "forward_chaining example_env [unbalanced_rule] example_facts 100 =
     Inr \<lparr>res_conclusions = [''r1''],
          res_actions_taken = [''Sanci'' @ [CHR 0xF3] @ ''n aplicada''],
          res_steps = [make_step example_env
                         (facts_of (initial_state example_env example_facts)) unbalanced_rule
                         (VBool True)],
          final_facts = (mark_sanction unbalanced_rule
                           (facts_of (initial_state example_env example_facts)))
                          (''rule_r1_executed'' \<mapsto> VBool True)\<rparr>
   \<and> facts_of (initial_state example_env example_facts) ''sancion_aplicada'' = None
   \<and> ((mark_sanction unbalanced_rule (facts_of (initial_state example_env example_facts)))
         (''rule_r1_executed'' \<mapsto> VBool True)) ''sancion_aplicada'' = Some (VBool True)
   \<and> forward_chaining example_env [empty_args_rule] example_facts 100 =
     Inr \<lparr>res_conclusions = [''r1''],
          res_actions_taken = [''Hecho establecido:  = ''],
          res_steps = [make_step example_env
                         (facts_of (initial_state example_env example_facts)) empty_args_rule
                         (VBool True)],
          final_facts = (facts_of (initial_state example_env example_facts))
                          ([] \<mapsto> VStr [], ''rule_r1_executed'' \<mapsto> VBool True)\<rparr>
   \<and> facts_of (initial_state example_env example_facts) [] = None
   \<and> execute_action ascii_env ''foo()'' foo_call_rule
        (facts_of (initial_state ascii_env example_facts)) = Inl UnicodeEncodeError
   \<and> forward_chaining ascii_env [foo_call_rule] example_facts 100 = Inl UnicodeEncodeError"
proof -
  let ?fs = "facts_of (initial_state example_env example_facts)"
  have n: "func_name_of ''mark_sanction(()'' = ''mark_sanction''"
    using func_name_plain[of "''mark_sanction''" "''()''"] by (simp add: strip_def is_space_def)
  have "execute_action example_env ''mark_sanction(()''
          (example_rule ''r1'' 10 ''True'' ''mark_sanction(()'') ?fs =
        Inr (Some (''Sanci'' @ [CHR 0xF3] @ ''n aplicada''),
             mark_sanction (example_rule ''r1'' 10 ''True'' ''mark_sanction(()'') ?fs)"
    by (rule execute_action_args_ignored(1)[OF _ _ n]) simp_all
  from single_rule_run[OF parse_example this]
  have r1: "forward_chaining example_env [unbalanced_rule] example_facts 100 =
     Inr \<lparr>res_conclusions = [''r1''],
          res_actions_taken = [''Sanci'' @ [CHR 0xF3] @ ''n aplicada''],
          res_steps = [make_step example_env ?fs unbalanced_rule (VBool True)],
          final_facts = (mark_sanction unbalanced_rule ?fs)
                          (''rule_r1_executed'' \<mapsto> VBool True)\<rparr>"
    by (simp add: unbalanced_rule_def)
  have i1: "?fs ''sancion_aplicada'' = None" "?fs [] = None"
    by (simp_all add: initial_state_def add_special_functions_def example_facts_def)
  have m1: "((mark_sanction unbalanced_rule ?fs)(''rule_r1_executed'' \<mapsto> VBool True))
              ''sancion_aplicada'' = Some (VBool True)"
    by (simp add: mark_sanction_def)
  have "execute_action example_env ''set_fact(,)''
          (example_rule ''r1'' 10 ''True'' ''set_fact(,)'') ?fs =
        Inr (Some ''Hecho establecido:  = '', ?fs([] \<mapsto> VStr []))"
    using func_name_set_fact[of "'',)''"] args_str_set_fact[of "'',''"]
    by (simp add: execute_action_def Let_def split1_def extract_string_arg_def strip_def
        startswith_def endswith_def)
  from single_rule_run[OF parse_example this]
  have r2: "forward_chaining example_env [empty_args_rule] example_facts 100 =
     Inr \<lparr>res_conclusions = [''r1''],
          res_actions_taken = [''Hecho establecido:  = ''],
          res_steps = [make_step example_env ?fs empty_args_rule (VBool True)],
          final_facts = ?fs([] \<mapsto> VStr [], ''rule_r1_executed'' \<mapsto> VBool True)\<rparr>"
    by (simp add: empty_args_rule_def)
  have e3: "execute_action ascii_env ''foo()'' r fs = Inl UnicodeEncodeError" for r fs
    using execute_action_unknown_name[of "''foo()''" ascii_env r fs]
    by (simp add: func_name_foo print_ascii_unrecognized print_ascii_action action_except_def)
  have r3: "forward_chaining ascii_env [foo_call_rule] example_facts 100 = Inl UnicodeEncodeError"
    unfolding foo_call_rule_def by (rule single_rule_raises[OF parse_ascii e3])
  show ?thesis
    using r1 i1 m1 r2 e3 r3 by blast
qed

text \<open>
  Claim C9, as amended. For every fact name \<open>n\<close> without a comma and every value text \<open>t\<close>,
  executing \<^verbatim>\<open>set_fact('n',t)\<close> raises nothing and stores under the key \<open>n\<close> the text of
  \<open>t\<close> as a string, stripped of surrounding whitespace and of one pair of enclosing quotes,
  and changes no other fact; a quoted text \<^verbatim>\<open>'v'\<close> is stored as \<open>v\<close>. A later condition
  that reads \<open>n\<close> observes that string, provided \<open>n\<close> is not the name of an allow-listed
  function.
\<close>

theorem set_fact_stores_text:
  assumes "CHR '','' \<notin> set n"
  shows "execute_action e (set_fact_text n t) r fs
           = Inr (Some (''Hecho establecido: '' @ n @ '' = '' @ extract_string_arg t),
                  fs(n \<mapsto> VStr (extract_string_arg t)))
       \<and> extract_string_arg (CHR 0x27 # v @ [CHR 0x27]) = v
       \<and> (n \<notin> set ALLOWED_FUNCTIONS \<longrightarrow>
            eval_node e (fs(n \<mapsto> VStr (extract_string_arg t))) (Name n)
              = Inr (VStr (extract_string_arg t)))"
  using execute_set_fact[OF assms, of e t r fs] extract_quoted[of v] by simp

theorem set_fact_stores_text_witness:
  "CHR '','' \<notin> set ''riesgo_empleado''
   \<and> execute_action example_env
        (set_fact_text ''riesgo_empleado'' ([CHR 0x27] @ ''alto'' @ [CHR 0x27]))
        foo_rule example_facts
      = Inr (Some ''Hecho establecido: riesgo_empleado = alto'',
             example_facts(''riesgo_empleado'' \<mapsto> VStr ''alto''))
   \<and> ''riesgo_empleado'' \<notin> set ALLOWED_FUNCTIONS
   \<and> eval_node example_env (example_facts(''riesgo_empleado'' \<mapsto> VStr ''alto''))
        (Name ''riesgo_empleado'') = Inr (VStr ''alto'')"
proof -
  have c: "CHR '','' \<notin> set ''riesgo_empleado''" by simp
  have x: "extract_string_arg ([CHR 0x27] @ ''alto'' @ [CHR 0x27]) = ''alto''"
    using extract_quoted[of "''alto''"] by simp
  have m: "''riesgo_empleado'' \<notin> set ALLOWED_FUNCTIONS" by (simp add: ALLOWED_FUNCTIONS_def)
  show ?thesis
    using set_fact_stores_text[OF c, of example_env "[CHR 0x27] @ ''alto'' @ [CHR 0x27]"
        foo_rule example_facts "''alto''"] x m c
    by simp
qed

text \<open>
  The claim as stated fails on a value that is no string: \<^verbatim>\<open>set_fact('duracion', 5)\<close>
  stores the string \<^verbatim>\<open>'5'\<close>, not the number, and the later condition
  \<^verbatim>\<open>duracion == 5\<close> is false on it, while it is true on the number.
\<close>

theorem set_fact_type_counterexample:
  "execute_action example_env (set_fact_text ''duracion'' '' 5'') foo_rule example_facts
     = Inr (Some ''Hecho establecido: duracion = 5'',
            example_facts(''duracion'' \<mapsto> VStr ''5''))
   \<and> (example_facts(''duracion'' \<mapsto> VStr ''5'')) ''duracion'' = Some (VStr ''5'')
   \<and> Some (VStr ''5'') \<noteq> Some (VInt 5)
   \<and> evaluate example_env (example_facts(''duracion'' \<mapsto> VStr ''5'')) ''duracion == 5''
       = Inr (VBool False)
   \<and> evaluate example_env (example_facts(''duracion'' \<mapsto> VInt 5)) ''duracion == 5''
       = Inr (VBool True)"
proof -
  have c: "CHR '','' \<notin> set ''duracion''" by simp
  have x: "extract_string_arg '' 5'' = ''5''"
    by (simp add: extract_string_arg_def strip_def is_space_def startswith_def endswith_def)
  have s: "execute_action example_env (set_fact_text ''duracion'' '' 5'') foo_rule example_facts
     = Inr (Some ''Hecho establecido: duracion = 5'',
            example_facts(''duracion'' \<mapsto> VStr ''5''))"
    using execute_set_fact[OF c, of example_env "'' 5''" foo_rule example_facts] x by simp
  have p: "parse example_env ''duracion == 5''
             = Some (Compare (Name ''duracion'') [(Eq, Constant (VInt 5))])"
    by (simp add: example_env_def example_parse_def)
  have e1: "evaluate example_env (example_facts(''duracion'' \<mapsto> VStr ''5'')) ''duracion == 5''
       = Inr (VBool False)"
    by (simp add: evaluate_def evaluate_body_def p ALLOWED_FUNCTIONS_def
        allowed_cmpop_def apply_cmp_def)
  have e2: "evaluate example_env (example_facts(''duracion'' \<mapsto> VInt 5)) ''duracion == 5''
       = Inr (VBool True)"
    by (simp add: evaluate_def evaluate_body_def p ALLOWED_FUNCTIONS_def
        allowed_cmpop_def apply_cmp_def)
  show ?thesis
    using s e1 e2 by simp
qed

section \<open>Special functions\<close>

text \<open>
  Claim C10. On every falsy argument, \<^verbatim>\<open>days_since\<close> and \<^verbatim>\<open>hours_since\<close> return 999 and
  raise nothing; both are in the fact environment of every run. So where the fact \<open>x\<close> is
  missing, the conditions \<^verbatim>\<open>days_since(x) > n\<close> and \<^verbatim>\<open>hours_since(x) > n\<close> are true for
  every integer threshold \<open>n\<close> below the sentinel.
\<close>

theorem special_functions_sentinel:
  "(\<not> truthy v \<longrightarrow>
      days_since e v = Inr (VInt 999) \<and> hours_since e v = Inr (VInt 999)
      \<and> apply_callable e DaysSince [v] = Inr (VInt 999)
      \<and> apply_callable e HoursSince [v] = Inr (VInt 999))
   \<and> facts_of (initial_state e init) ''days_since'' = Some (VFun DaysSince)
   \<and> facts_of (initial_state e init) ''hours_since'' = Some (VFun HoursSince)
   \<and> (fs ''days_since'' = Some (VFun DaysSince) \<and> fs ''hours_since'' = Some (VFun HoursSince)
      \<and> fs x = None \<and> x \<notin> set ALLOWED_FUNCTIONS \<and> n < 999 \<longrightarrow>
        eval_node e fs (Compare (Call (Name ''days_since'') [Name x]) [(Gt, Constant (VInt n))])
          = Inr (VBool True)
        \<and> eval_node e fs (Compare (Call (Name ''hours_since'') [Name x]) [(Gt, Constant (VInt n))])
          = Inr (VBool True))"
  by (simp add: days_since_def hours_since_def apply_callable_def initial_state_def
      add_special_functions_def ALLOWED_FUNCTIONS_def map_result_def allowed_cmpop_def
      apply_cmp_def num_cmp_def)

theorem special_functions_sentinel_witness:
  "\<not> truthy VNone
   \<and> days_since example_env VNone = Inr (VInt 999)
   \<and> hours_since example_env VNone = Inr (VInt 999)
   \<and> facts_of (initial_state example_env example_facts) ''fecha'' = None
   \<and> ''fecha'' \<notin> set ALLOWED_FUNCTIONS \<and> (30::int) < 999
   \<and> eval_node example_env (facts_of (initial_state example_env example_facts))
        (Compare (Call (Name ''days_since'') [Name ''fecha'']) [(Gt, Constant (VInt 30))])
       = Inr (VBool True)
   \<and> evaluate example_env (facts_of (initial_state example_env example_facts))
        ''days_since(fecha) > 30'' = Inr (VBool True)"
proof -
  have f: "facts_of (initial_state example_env example_facts) ''fecha'' = None"
    by (simp add: initial_state_def add_special_functions_def example_facts_def)
  have m: "''fecha'' \<notin> set ALLOWED_FUNCTIONS" by (simp add: ALLOWED_FUNCTIONS_def)
  have p: "parse example_env ''days_since(fecha) > 30''
      = Some (Compare (Call (Name ''days_since'') [Name ''fecha'']) [(Gt, Constant (VInt 30))])"
    by (simp add: example_env_def example_parse_def)
  show ?thesis
    using special_functions_sentinel[of VNone example_env example_facts
        "facts_of (initial_state example_env example_facts)" "''fecha''" 30] f m p
    by (simp add: evaluate_def evaluate_body_def)
qed

section \<open>Validation\<close>

text \<open>
  Claim C5. The claim is that \<open>validate_condition\<close> rejects every condition text that is
  unparseable or uses a disallowed construct. The code does the opposite: \<open>evaluate\<close> turns
  every failure into \<^verbatim>\<open>False\<close>, and \<open>validate_condition\<close> accepts \<^verbatim>\<open>False\<close> as the
  value of a valid condition. Every non-blank text that does not parse, or whose tree fails
  to evaluate on the test facts, is accepted once \<open>evaluate\<close> has printed its line. Only
  when that line cannot be printed is the text rejected, and then with the message of the
  exception of \<^verbatim>\<open>print\<close>, which does not say why the condition failed.
\<close>

theorem validate_condition_accepts_failures:
  assumes "strip cond \<noteq> []"
    and "parse e cond = None \<or> (\<exists>tree x. parse e cond = Some tree \<and> eval_node e (test_facts e) tree = Inl x)"
  shows "\<exists>x. evaluate_body e (test_facts e) cond = Inl x
     \<and> (print_out e (eval_message e cond x) = None \<longrightarrow>
          fst (validate_condition e cond) = True
          \<and> validate_condition e cond =
              (True, ''Condici'' @ [CHR 0xF3] @ ''n v'' @ [CHR 0xE1] @ ''lida (eval''
                       @ [CHR 0xFA] @ ''a a False)''))
     \<and> (\<forall>y. print_out e (eval_message e cond x) = Some y \<longrightarrow>
          validate_condition e cond =
            (False, ''Error en condici'' @ [CHR 0xF3] @ ''n: '' @ take 100 (exn_str e y)))"
proof -
  have ne: "cond \<noteq> []" using assms(1) by (auto simp: strip_def)
  obtain x where x: "evaluate_body e (test_facts e) cond = Inl x"
    using assms(2) by (auto simp: evaluate_body_def)
  have a: "validate_condition e cond =
              (True, ''Condici'' @ [CHR 0xF3] @ ''n v'' @ [CHR 0xE1] @ ''lida (eval''
                       @ [CHR 0xFA] @ ''a a False)'')"
    if "print_out e (eval_message e cond x) = None"
    using that x ne assms(1) by (simp add: validate_condition_def evaluate_def)
  have b: "validate_condition e cond =
            (False, ''Error en condici'' @ [CHR 0xF3] @ ''n: '' @ take 100 (exn_str e y))"
    if "print_out e (eval_message e cond x) = Some y" for y
    using that x ne assms(1) by (simp add: validate_condition_def evaluate_def)
  show ?thesis using x a b by auto
qed

theorem validate_condition_accepts_failures_witness:
  "strip ''duracion === 5'' \<noteq> [] \<and> parse example_env ''duracion === 5'' = None
   \<and> evaluate_body example_env (test_facts example_env) ''duracion === 5'' = Inl SyntaxError
   \<and> print_out example_env (eval_message example_env ''duracion === 5'' SyntaxError) = None
   \<and> fst (validate_condition example_env ''duracion === 5'') = True
   \<and> validate_condition example_env ''duracion === 5'' =
       (True, ''Condici'' @ [CHR 0xF3] @ ''n v'' @ [CHR 0xE1] @ ''lida (eval''
                @ [CHR 0xFA] @ ''a a False)'')
   \<and> parse ascii_env ''duracion === 5'' = None
   \<and> print_out ascii_env (eval_message ascii_env ''duracion === 5'' SyntaxError)
       = Some UnicodeEncodeError
   \<and> validate_condition ascii_env ''duracion === 5'' =
       (False, ''Error en condici'' @ [CHR 0xF3] @ ''n: error'')"
proof -
  have s: "strip ''duracion === 5'' \<noteq> []" by (simp add: strip_def is_space_def)
  have p: "parse example_env ''duracion === 5'' = None"
    by (simp add: example_env_def example_parse_def)
  have pa: "parse ascii_env ''duracion === 5'' = None"
    by (simp add: parse_ascii example_parse_def)
  have b: "evaluate_body example_env fs ''duracion === 5'' = Inl SyntaxError" for fs
    by (simp add: evaluate_body_def p)
  have ba: "evaluate_body ascii_env fs ''duracion === 5'' = Inl SyntaxError" for fs
    by (simp add: evaluate_body_def pa)
  have pr: "print_out example_env (eval_message example_env ''duracion === 5'' SyntaxError) = None"
    by (rule print_example)
  have pra: "print_out ascii_env (eval_message ascii_env ''duracion === 5'' SyntaxError)
       = Some UnicodeEncodeError"
    by (rule ascii_eval_message)
  have x: "exn_str ascii_env UnicodeEncodeError = ''error''"
    by (simp add: ascii_env_def example_env_def)
  from validate_condition_accepts_failures[of "''duracion === 5''" example_env] s p
  have v: "validate_condition example_env ''duracion === 5'' =
       (True, ''Condici'' @ [CHR 0xF3] @ ''n v'' @ [CHR 0xE1] @ ''lida (eval''
                @ [CHR 0xFA] @ ''a a False)'')"
    using b pr by auto
  from validate_condition_accepts_failures[of "''duracion === 5''" ascii_env] s pa
  have va: "validate_condition ascii_env ''duracion === 5'' =
       (False, ''Error en condici'' @ [CHR 0xF3] @ ''n: error'')"
    using ba pra x by auto
  show ?thesis
    using s p b pr v pa pra va by simp
qed

section \<open>The case store\<close>

lemma extract_example: "extract_features example_env example_case_facts =
   Inr [(''motivo'', 1), (''duracion'', 5), (''ausencias_ultimo_mes'', 0),
        (''certificate_uploaded'', 0), (''validation_status'', 0.5),
        (''deadline_exceeded'', 0), (''sector'', 0)]"
  by (simp add: extract_features_def example_case_facts_def get_fact_def lookup_code_def
      motivo_map_def sector_map_def py_float_def Let_def)

lemma store_first:
  "store_case example_env True empty_store example_case_facts
      [''cert_missing_critical''] [''add_observacion''] ''approved''
   = Inr (''29ac73e26bfb'', \<lparr>cases = [stored_example], db_rows = [stored_example]\<rparr>)"
  unfolding store_case_def Let_def extract_example[unfolded example_env_def] example_env_def
  by (simp add: example_json_dumps_def example_md5_def serializable_def example_case_facts_def
       empty_store_def example_json_def stored_example_def)

text \<open>
  Claim C6. Storing the same facts, rules, actions and outcome a second time returns the
  same \<open>case_id\<close>, and the table of the database then holds one row with that identifier;
  but the case memory \<^verbatim>\<open>self.cases\<close>, which retrieval reads, has grown by two cases with
  that identifier: the second call inserts a duplicate there.
\<close>

theorem store_case_twice:
  assumes "store_case e ok1 st fs rules acts outc = Inr (cid, st1)"
  shows "\<exists>st2. store_case e ok2 st1 fs rules acts outc = Inr (cid, st2)
           \<and> length (cases st2) = length (cases st) + 2
           \<and> length (filter (\<lambda>c. case_id c = cid) (cases st2)) \<ge> 2
           \<and> (ok2 \<longrightarrow> length (filter (\<lambda>c. case_id c = cid) (db_rows st2)) = 1)"
  using assms
  by (auto simp: store_case_def Let_def split: sum.splits)

theorem store_case_twice_witness:
  "store_case example_env True empty_store example_case_facts
      [''cert_missing_critical''] [''add_observacion''] ''approved''
     = Inr (''29ac73e26bfb'', \<lparr>cases = [stored_example], db_rows = [stored_example]\<rparr>)
   \<and> (\<exists>st2. store_case example_env True \<lparr>cases = [stored_example], db_rows = [stored_example]\<rparr>
               example_case_facts [''cert_missing_critical''] [''add_observacion''] ''approved''
             = Inr (''29ac73e26bfb'', st2)
          \<and> length (cases st2) = 2
          \<and> length (filter (\<lambda>c. case_id c = ''29ac73e26bfb'') (cases st2)) \<ge> 2
          \<and> length (filter (\<lambda>c. case_id c = ''29ac73e26bfb'') (db_rows st2)) = 1)"
  using store_case_twice[OF store_first, of True] store_first
  by (auto simp: empty_store_def)

section \<open>Retrieval\<close>

lemma sort_reverse_mset: "mset (sort_reverse f xs) = mset xs"
  by (simp add: sort_reverse_def)

lemma sort_reverse_descending: "sorted_wrt (\<lambda>a b. f a \<ge> f b) (sort_reverse f xs)"
proof -
  have "sorted (map f (sort_key f (rev xs)))" by (rule sorted_sort_key)
  then have "sorted_wrt (\<lambda>a b. f a \<le> f b) (sort_key f (rev xs))"
    by (simp add: sorted_map)
  then show ?thesis
    by (simp add: sort_reverse_def sorted_wrt_rev)
qed

lemma sort_reverse_stable:
  "filter (\<lambda>x. f x = s) (sort_reverse f xs) = filter (\<lambda>x. f x = s) xs"
  by (simp add: sort_reverse_def rev_filter[symmetric] sort_key_stable)

lemma extract_query: "extract_features example_env example_query = Inr query_features"
  by (simp add: extract_features_def example_query_def get_fact_def lookup_code_def
      motivo_map_def sector_map_def py_float_def Let_def query_features_def)

lemma sim_approved:
  "calculate_similarity query_features (similarity_features case_approved) = 9/10"
  by (simp add: calculate_similarity_def query_features_def case_approved_def example_stored_def
      feature_weights_def sim_step_def feature_sim_def)

lemma sim_escalated:
  "calculate_similarity query_features (similarity_features case_escalated) = 6/10"
  by (simp add: calculate_similarity_def query_features_def case_escalated_def example_stored_def
      feature_weights_def sim_step_def feature_sim_def)

lemma find_example:
  "find_similar_cases example_env [case_escalated, case_approved] example_query 5 (3/10)
     = Inr [candidate query_features case_approved, candidate query_features case_escalated]"
  by (simp add: find_similar_cases_def extract_query candidate_def sim_approved sim_escalated
      sort_reverse_def py_prefix_def)

lemma find_scores:
  assumes "find_similar_cases e cs current_facts k m = Inr scs"
  shows "\<forall>sc\<in>set scs. m \<le> similarity_score sc"
proof (cases "cs = []")
  case True
  with assms show ?thesis by (simp add: find_similar_cases_def)
next
  case False
  then obtain cur where
    scs: "scs = py_prefix k (sort_reverse similarity_score
             (filter (\<lambda>sc. similarity_score sc \<ge> m) (map (candidate cur) cs)))"
    using assms by (auto simp: find_similar_cases_def split: sum.splits)
  have p: "set (py_prefix k xs) \<subseteq> set xs" for xs :: "similar_case list"
    by (auto simp: py_prefix_def dest: in_set_takeD)
  have q: "set (sort_reverse similarity_score xs) = set xs" for xs :: "similar_case list"
    by (simp add: sort_reverse_def)
  show ?thesis
  proof
    fix sc assume "sc \<in> set scs"
    then have "sc \<in> set (sort_reverse similarity_score
             (filter (\<lambda>sc. similarity_score sc \<ge> m) (map (candidate cur) cs)))"
      using p scs by blast
    then have "sc \<in> set (filter (\<lambda>sc. similarity_score sc \<ge> m) (map (candidate cur) cs))"
      using q by blast
    then show "m \<le> similarity_score sc" by simp
  qed
qed

text \<open>
  Claim C7, as amended. For every case memory, every query whose features can be extracted, every
  \<open>top_k\<close> that is not negative and every \<open>min_similarity\<close>, \<open>find_similar_cases\<close> returns
  the first \<open>top_k\<close> elements of a ranking that holds exactly the stored cases whose
  similarity to the query is at or above \<open>min_similarity\<close>, each with that similarity, in
  descending order of similarity, cases of equal similarity in their order of insertion.
\<close>

theorem find_similar_cases_ranked:
  assumes "extract_features e current_facts = Inr cur" and "0 \<le> top_k"
  shows "\<exists>ranked. find_similar_cases e cs current_facts top_k min_similarity
                    = Inr (take (nat top_k) ranked)
     \<and> mset ranked = mset (filter (\<lambda>sc. similarity_score sc \<ge> min_similarity)
                               (map (candidate cur) cs))
     \<and> sorted_wrt (\<lambda>a b. similarity_score a \<ge> similarity_score b) ranked
     \<and> (\<forall>s. filter (\<lambda>sc. similarity_score sc = s) ranked
            = filter (\<lambda>sc. similarity_score sc = s)
                (filter (\<lambda>sc. similarity_score sc \<ge> min_similarity) (map (candidate cur) cs)))
     \<and> (\<forall>sc \<in> set ranked. sc_case sc \<in> set cs
            \<and> similarity_score sc = calculate_similarity cur (similarity_features (sc_case sc)))"
proof (cases "cs = []")
  case True
  then show ?thesis by (simp add: find_similar_cases_def)
next
  case False
  let ?F = "filter (\<lambda>sc. similarity_score sc \<ge> min_similarity) (map (candidate cur) cs)"
  let ?R = "sort_reverse similarity_score ?F"
  have 1: "find_similar_cases e cs current_facts top_k min_similarity = Inr (take (nat top_k) ?R)"
    using False assms by (simp add: find_similar_cases_def py_prefix_def)
  have 2: "mset ?R = mset ?F" by (rule sort_reverse_mset)
  have 3: "sorted_wrt (\<lambda>a b. similarity_score a \<ge> similarity_score b) ?R"
    by (rule sort_reverse_descending)
  have 4: "\<forall>s. filter (\<lambda>sc. similarity_score sc = s) ?R = filter (\<lambda>sc. similarity_score sc = s) ?F"
    by (simp add: sort_reverse_stable)
  have "set ?R = set ?F" using 2 by (metis set_mset_mset)
  then have 5: "\<forall>sc \<in> set ?R. sc_case sc \<in> set cs
            \<and> similarity_score sc = calculate_similarity cur (similarity_features (sc_case sc))"
    by (auto simp: candidate_def)
  show ?thesis using 1 2 3 4 5 by blast
qed

theorem find_similar_cases_ranked_witness:
  "extract_features example_env example_query = Inr query_features \<and> (0::int) \<le> 5
   \<and> find_similar_cases example_env [case_escalated, case_approved] example_query 5 (3/10)
       = Inr [candidate query_features case_approved, candidate query_features case_escalated]
   \<and> similarity_score (candidate query_features case_approved) = 9/10
   \<and> similarity_score (candidate query_features case_escalated) = 6/10
   \<and> (\<exists>ranked. find_similar_cases example_env [case_escalated, case_approved] example_query 5 (3/10)
                    = Inr (take (nat 5) ranked)
         \<and> sorted_wrt (\<lambda>a b. similarity_score a \<ge> similarity_score b) ranked)"
proof -
  have k: "(0::int) \<le> 5" by simp
  have "\<exists>ranked. find_similar_cases example_env [case_escalated, case_approved] example_query 5 (3/10)
                    = Inr (take (nat 5) ranked)
         \<and> sorted_wrt (\<lambda>a b. similarity_score a \<ge> similarity_score b) ranked"
    using find_similar_cases_ranked[OF extract_query k, of "[case_escalated, case_approved]" "3/10"]
    by blast
  then show ?thesis
    using extract_query find_example sim_approved sim_escalated
    by (simp add: candidate_def)
qed

text \<open>
  The claim as stated, for every query and every \<open>top_k\<close>, fails in two ways. A query whose
  \<^verbatim>\<open>duracion\<close> is \<^verbatim>\<open>None\<close> makes \<^verbatim>\<open>float\<close> raise in \<open>extract_features\<close>, and nothing
  is returned; and a negative \<open>top_k\<close> is a slice that counts from the end, so that
  \<open>top_k = -1\<close> drops the last of the two ranked cases instead of returning none.
\<close>

theorem find_similar_cases_counterexample:
  "find_similar_cases example_env [case_approved] [(''duracion'', VNone)] 5 (3/10) = Inl TypeError
   \<and> find_similar_cases example_env [case_escalated, case_approved] example_query (- 1) (3/10)
       = Inr [candidate query_features case_approved]"
proof -
  have "extract_features example_env [(''duracion'', VNone)] = Inl TypeError"
    by (simp add: extract_features_def get_fact_def lookup_code_def motivo_map_def py_float_def)
  then have a: "find_similar_cases example_env [case_approved] [(''duracion'', VNone)] 5 (3/10)
                  = Inl TypeError"
    by (simp add: find_similar_cases_def)
  have b: "find_similar_cases example_env [case_escalated, case_approved] example_query (- 1) (3/10)
       = Inr [candidate query_features case_approved]"
    by (simp add: find_similar_cases_def extract_query candidate_def sim_approved sim_escalated
        sort_reverse_def py_prefix_def)
  show ?thesis using a b by simp
qed

section \<open>Recommendation\<close>

lemma map_of_add_count:
  "map_of (add_count k w kvs) k' =
     (if k' = k then Some ((case map_of kvs k of None \<Rightarrow> 0 | Some x \<Rightarrow> x) + w)
      else map_of kvs k')"
  by (induction kvs) auto

lemma keys_add_count: "fst ` set (add_count k w kvs) = insert k (fst ` set kvs)"
  by (induction kvs) auto

lemma distinct_add_count:
  "distinct (map fst kvs) \<Longrightarrow> distinct (map fst (add_count k w kvs))"
proof (induction kvs)
  case Nil
  then show ?case by simp
next
  case (Cons kv kvs)
  have "fst ` set (add_count k w kvs) = insert k (fst ` set kvs)"
    by (rule keys_add_count)
  with Cons show ?case by auto
qed

lemma vote_absent:
  "k \<notin> (\<lambda>sc. outcome (sc_case sc)) ` set scs \<Longrightarrow> weighted_vote scs k = 0"
proof -
  assume "k \<notin> (\<lambda>sc. outcome (sc_case sc)) ` set scs"
  then have "filter (\<lambda>sc. outcome (sc_case sc) = k) scs = []"
    by (auto simp: filter_empty_conv)
  then show ?thesis by (simp add: weighted_vote_def)
qed

lemma vote_Cons:
  "weighted_vote (sc # scs) k =
     (if outcome (sc_case sc) = k then similarity_score sc else 0) + weighted_vote scs k"
  by (simp add: weighted_vote_def)

lemma fold_counts:
  "map_of (fold (\<lambda>sc. add_count (outcome (sc_case sc)) (similarity_score sc)) scs acc) k =
     (if k \<in> (\<lambda>sc. outcome (sc_case sc)) ` set scs
      then Some ((case map_of acc k of None \<Rightarrow> 0 | Some x \<Rightarrow> x) + weighted_vote scs k)
      else map_of acc k)"
proof (induction scs arbitrary: acc)
  case Nil
  then show ?case by simp
next
  case (Cons sc scs)
  show ?case
  proof (cases "k \<in> (\<lambda>sc. outcome (sc_case sc)) ` set scs")
    case True
    then show ?thesis
      by (simp add: Cons.IH map_of_add_count vote_Cons)
  next
    case False
    have z: "weighted_vote scs k = 0" using False by (rule vote_absent)
    show ?thesis using False z
      by (auto simp: Cons.IH map_of_add_count vote_Cons)
  qed
qed

lemma fold_counts_distinct:
  "distinct (map fst acc) \<Longrightarrow>
   distinct (map fst (fold (\<lambda>sc. add_count (outcome (sc_case sc)) (similarity_score sc)) scs acc))"
  by (induction scs arbitrary: acc) (auto simp: distinct_add_count)

lemma fold_counts_keys:
  "fst ` set (fold (\<lambda>sc. add_count (outcome (sc_case sc)) (similarity_score sc)) scs acc)
     = fst ` set acc \<union> (\<lambda>sc. outcome (sc_case sc)) ` set scs"
  by (induction scs arbitrary: acc) (simp_all add: keys_add_count)

lemma outcome_counts_entry:
  assumes "(k, v) \<in> set (outcome_counts scs)"
  shows "k \<in> (\<lambda>sc. outcome (sc_case sc)) ` set scs \<and> v = weighted_vote scs k"
proof -
  have d: "distinct (map fst (outcome_counts scs))"
    unfolding outcome_counts_def by (rule fold_counts_distinct) simp
  then have m: "map_of (outcome_counts scs) k = Some v"
    using assms by simp
  have "k \<in> fst ` set (outcome_counts scs)"
    using assms by force
  then have k: "k \<in> (\<lambda>sc. outcome (sc_case sc)) ` set scs"
    using fold_counts_keys[of scs "[]"]
    unfolding outcome_counts_def by simp
  with m show ?thesis
    using fold_counts[of scs "[]" k] unfolding outcome_counts_def by simp
qed

lemma outcome_counts_complete:
  assumes "k \<in> (\<lambda>sc. outcome (sc_case sc)) ` set scs"
  shows "(k, weighted_vote scs k) \<in> set (outcome_counts scs)"
proof -
  have "map_of (outcome_counts scs) k = Some (weighted_vote scs k)"
    using assms fold_counts[of scs "[]" k] unfolding outcome_counts_def by simp
  then show ?thesis by (rule map_of_SomeD)
qed

lemma py_max_snd_mem: "py_max_snd best xs \<in> set (best # xs)"
  by (induction xs arbitrary: best) auto

lemma py_max_snd_best: "snd best \<le> snd (py_max_snd best xs)"
proof (induction xs arbitrary: best)
  case Nil
  then show ?case by simp
next
  case (Cons x xs)
  show ?case
    using Cons.IH[of x] Cons.IH[of best] by auto
qed

lemma py_max_snd_ge: "y \<in> set xs \<Longrightarrow> snd y \<le> snd (py_max_snd best xs)"
proof (induction xs arbitrary: best)
  case Nil
  then show ?case by simp
next
  case (Cons x xs)
  show ?case
  proof (cases "y = x")
    case True
    then show ?thesis
      using py_max_snd_best[of x xs] py_max_snd_best[of best xs] by auto
  next
    case False
    with Cons show ?thesis by auto
  qed
qed

lemma total_similarity_fold:
  "fold (\<lambda>sc t. t + similarity_score sc) scs acc = acc + sum_list (map similarity_score scs)"
  by (induction scs arbitrary: acc) auto

lemma total_similarity_sum: "total_similarity scs = sum_list (map similarity_score scs)"
  by (simp add: total_similarity_def total_similarity_fold)

lemma sum_list_pos: "xs \<noteq> [] \<Longrightarrow> \<forall>x\<in>set xs. (0::real) < x \<Longrightarrow> 0 < sum_list xs"
  by (induction xs) (auto simp: add_pos_nonneg sum_list_nonneg less_imp_le)

lemma weighted_vote_nonneg:
  "\<forall>sc\<in>set scs. 0 < similarity_score sc \<Longrightarrow> 0 \<le> weighted_vote scs k"
  unfolding weighted_vote_def by (rule sum_list_nonneg) auto

lemma recommend_neighbors_vote:
  assumes ne: "scs \<noteq> []" and pos: "\<forall>sc\<in>set scs. 0 < similarity_score sc"
  shows "\<exists>res best. recommend_neighbors scs = Inr res
           \<and> best \<in> (\<lambda>sc. outcome (sc_case sc)) ` set scs
           \<and> (\<forall>k. weighted_vote scs k \<le> weighted_vote scs best)
           \<and> recommendations res \<noteq> []
           \<and> rec_type (hd (recommendations res)) = ''outcome_prediction''
           \<and> suggestion (hd (recommendations res)) = ''Outcome m'' @ [CHR 0xE1] @ ''s probable: '' @ best
           \<and> rec_confidence (hd (recommendations res)) = confidence res
           \<and> confidence res = weighted_vote scs best / sum_list (map similarity_score scs)"
proof -
  obtain sc rest where scs: "scs = sc # rest" using ne by (cases scs) auto
  have "(outcome (sc_case sc), weighted_vote scs (outcome (sc_case sc))) \<in> set (outcome_counts scs)"
    by (rule outcome_counts_complete) (simp add: scs)
  then obtain x xs where oc: "outcome_counts scs = x # xs"
    by (cases "outcome_counts scs") auto
  define m where "m = py_max_snd x xs"
  have mem: "m \<in> set (outcome_counts scs)"
    unfolding m_def oc by (rule py_max_snd_mem)
  then have "(fst m, snd m) \<in> set (outcome_counts scs)" by simp
  from outcome_counts_entry[OF this]
  have mk: "fst m \<in> (\<lambda>sc. outcome (sc_case sc)) ` set scs"
    and mv: "snd m = weighted_vote scs (fst m)" by auto
  have tot: "0 < total_similarity scs"
    unfolding total_similarity_sum using ne pos by (intro sum_list_pos) auto
  have maxi: "weighted_vote scs k \<le> weighted_vote scs (fst m)" for k
  proof (cases "k \<in> (\<lambda>sc. outcome (sc_case sc)) ` set scs")
    case True
    then have "(k, weighted_vote scs k) \<in> set (x # xs)"
      using outcome_counts_complete[of k scs] oc by simp
    then have "snd (k, weighted_vote scs k) \<le> snd (py_max_snd x xs)"
      using py_max_snd_ge[of "(k, weighted_vote scs k)" xs x] py_max_snd_best[of x xs] by auto
    then show ?thesis using mv m_def by simp
  next
    case False
    then have "weighted_vote scs k = 0" by (rule vote_absent)
    then show ?thesis using weighted_vote_nonneg[OF pos, of "fst m"] by simp
  qed
  obtain res where res: "recommend_neighbors scs = Inr res"
     and r1: "confidence res = snd m / total_similarity scs"
     and r2: "recommendations res \<noteq> []"
     and r3: "rec_type (hd (recommendations res)) = ''outcome_prediction''"
     and r4: "suggestion (hd (recommendations res)) = ''Outcome m'' @ [CHR 0xE1] @ ''s probable: '' @ fst m"
     and r5: "rec_confidence (hd (recommendations res)) = confidence res"
    using tot oc m_def by (simp add: recommend_neighbors_def Let_def)
  show ?thesis
    using res r1 r2 r3 r4 r5 mk maxi mv total_similarity_sum by metis
qed

lemma find_example4:
  "find_similar_cases example_env [case_escalated, case_approved] example_query 5 0.4
     = Inr [candidate query_features case_approved, candidate query_features case_escalated]"
  by (simp add: find_similar_cases_def extract_query candidate_def sim_approved sim_escalated
      sort_reverse_def py_prefix_def)

text \<open>
  Claim C8. Whenever the retrieval of \<open>get_recommendations\<close> returns a nonempty list of
  neighbours, the predicted outcome is an outcome of a neighbour whose weighted vote is
  largest, and the confidence is that vote divided by the sum of all similarity scores.
  With two neighbours of similarity 0.9 (approved) and 0.4 (escalated) the prediction is
  approved with confidence 0.9 / (0.9 + 0.4).
\<close>

theorem recommendation_weighted_vote:
  "(find_similar_cases e cs current_facts 5 0.4 = Inr scs \<and> scs \<noteq> [] \<longrightarrow>
      (\<exists>res best. get_recommendations e cs current_facts = Inr res
          \<and> best \<in> (\<lambda>sc. outcome (sc_case sc)) ` set scs
          \<and> (\<forall>k. weighted_vote scs k \<le> weighted_vote scs best)
          \<and> suggestion (hd (recommendations res))
               = ''Outcome m'' @ [CHR 0xE1] @ ''s probable: '' @ best
          \<and> confidence res = weighted_vote scs best / sum_list (map similarity_score scs)))
   \<and> (outcome c1 = ''approved'' \<and> outcome c2 = ''escalated'' \<longrightarrow>
        (\<exists>res. recommend_neighbors
                  [\<lparr>sc_case = c1, similarity_score = 0.9, matching_features = m1\<rparr>,
                   \<lparr>sc_case = c2, similarity_score = 0.4, matching_features = m2\<rparr>] = Inr res
           \<and> suggestion (hd (recommendations res))
                = ''Outcome m'' @ [CHR 0xE1] @ ''s probable: '' @ ''approved''
           \<and> confidence res = 0.9 / (0.9 + 0.4)))"
proof -
  have a: "\<exists>res best. get_recommendations e cs current_facts = Inr res
          \<and> best \<in> (\<lambda>sc. outcome (sc_case sc)) ` set scs
          \<and> (\<forall>k. weighted_vote scs k \<le> weighted_vote scs best)
          \<and> suggestion (hd (recommendations res))
               = ''Outcome m'' @ [CHR 0xE1] @ ''s probable: '' @ best
          \<and> confidence res = weighted_vote scs best / sum_list (map similarity_score scs)"
    if f: "find_similar_cases e cs current_facts 5 0.4 = Inr scs" and ne: "scs \<noteq> []"
  proof -
    have "\<forall>sc\<in>set scs. 0.4 \<le> similarity_score sc" using f by (rule find_scores)
    then have pos: "\<forall>sc\<in>set scs. 0 < similarity_score sc" by force
    have g: "get_recommendations e cs current_facts = recommend_neighbors scs"
      using f ne by (simp add: get_recommendations_def)
    show ?thesis
      using recommend_neighbors_vote[OF ne pos] g by metis
  qed
  have b: "\<exists>res. recommend_neighbors
                  [\<lparr>sc_case = c1, similarity_score = 0.9, matching_features = m1\<rparr>,
                   \<lparr>sc_case = c2, similarity_score = 0.4, matching_features = m2\<rparr>] = Inr res
           \<and> suggestion (hd (recommendations res))
                = ''Outcome m'' @ [CHR 0xE1] @ ''s probable: '' @ ''approved''
           \<and> confidence res = 0.9 / (0.9 + 0.4)"
    if "outcome c1 = ''approved''" "outcome c2 = ''escalated''"
    using that
    by (simp add: recommend_neighbors_def total_similarity_def outcome_counts_def Let_def)
  show ?thesis using a b by blast
qed

theorem recommendation_weighted_vote_witness:
  "find_similar_cases example_env [case_escalated, case_approved] example_query 5 0.4
     = Inr [candidate query_features case_approved, candidate query_features case_escalated]
   \<and> [candidate query_features case_approved, candidate query_features case_escalated] \<noteq> []
   \<and> outcome case_approved = ''approved'' \<and> outcome case_escalated = ''escalated''
   \<and> (\<exists>res. get_recommendations example_env [case_escalated, case_approved] example_query = Inr res
          \<and> suggestion (hd (recommendations res))
               = ''Outcome m'' @ [CHR 0xE1] @ ''s probable: '' @ ''approved''
          \<and> confidence res = 3/5)
   \<and> (\<exists>res. recommend_neighbors
                  [\<lparr>sc_case = case_approved, similarity_score = 0.9, matching_features = []\<rparr>,
                   \<lparr>sc_case = case_escalated, similarity_score = 0.4, matching_features = []\<rparr>]
                = Inr res
           \<and> confidence res = 9/13)"
proof -
  have o: "outcome case_approved = ''approved''" "outcome case_escalated = ''escalated''"
    by (simp_all add: case_approved_def case_escalated_def example_stored_def)
  have ne: "[candidate query_features case_approved, candidate query_features case_escalated] \<noteq> []"
    by simp
  from recommendation_weighted_vote[of example_env "[case_escalated, case_approved]" example_query
      "[candidate query_features case_approved, candidate query_features case_escalated]"
      case_approved case_escalated "[]" "[]"]
  obtain res best where
    g: "get_recommendations example_env [case_escalated, case_approved] example_query = Inr res"
    and b: "best \<in> (\<lambda>sc. outcome (sc_case sc)) `
               set [candidate query_features case_approved, candidate query_features case_escalated]"
    and m: "\<forall>k. weighted_vote [candidate query_features case_approved,
                    candidate query_features case_escalated] k
              \<le> weighted_vote [candidate query_features case_approved,
                    candidate query_features case_escalated] best"
    and s: "suggestion (hd (recommendations res)) = ''Outcome m'' @ [CHR 0xE1] @ ''s probable: '' @ best"
    and c: "confidence res = weighted_vote [candidate query_features case_approved,
                    candidate query_features case_escalated] best
              / sum_list (map similarity_score [candidate query_features case_approved,
                    candidate query_features case_escalated])"
    and r: "\<exists>res. recommend_neighbors
                  [\<lparr>sc_case = case_approved, similarity_score = 0.9, matching_features = []\<rparr>,
                   \<lparr>sc_case = case_escalated, similarity_score = 0.4, matching_features = []\<rparr>]
                = Inr res
           \<and> confidence res = 0.9 / (0.9 + 0.4)"
    using find_example4 o by auto
  have va: "weighted_vote [candidate query_features case_approved,
                    candidate query_features case_escalated] ''approved'' = 9/10"
    by (simp add: weighted_vote_def candidate_def o sim_approved)
  have ve: "weighted_vote [candidate query_features case_approved,
                    candidate query_features case_escalated] ''escalated'' = 6/10"
    by (simp add: weighted_vote_def candidate_def o sim_escalated)
  have "best = ''approved''"
  proof (rule ccontr)
    assume "best \<noteq> ''approved''"
    then have "best = ''escalated''" using b by (simp add: candidate_def o)
    then show False using m[rule_format, of "''approved''"] va ve by simp
  qed
  then have "suggestion (hd (recommendations res))
               = ''Outcome m'' @ [CHR 0xE1] @ ''s probable: '' @ ''approved''
          \<and> confidence res = 3/5"
    using s c va by (simp add: candidate_def sim_approved sim_escalated)
  then show ?thesis using g r find_example4 o by simp
qed

section \<open>The loop of forward chaining\<close>




























section \<open>Priority order\<close>














end
